theory Spec2Isabelle
  imports Complex_Main
begin

section \<open>Errors and the reporting channel\<close>

text \<open>
  The keys of the \<open>errorMessage\<close> table of \<open>docsify-auto-headers.js\<close>. A thrown
  \<open>new Error(errorMessage.k)\<close> is \<open>Error (Some k)\<close>; reading a key the table does not
  have gives \<open>undefined\<close>, so the error thrown with it is \<open>Error None\<close>. The two
  errors the JavaScript runtime itself raises in this file are \<open>ReferenceError\<close>
  (an identifier with no binding) and \<open>TypeError\<close> (a property read on \<open>undefined\<close>
  or \<open>null\<close>).
\<close>

datatype message =
    ConfigurationNotSetCorrectly
  | InvalidHeadingLevels
  | InvalidHeadingLevelNumber
  | InvalidHeadingLevelOrder
  | InvalidHeadingLevelRange
  | NonNumericValue
  | MismatchedSeparator
  | MissingAutoHeaderSignifier
  | MisconfiguredSignifier
  | InvalidSidebar
  | ExitingError

datatype js_error = Error "message option" | ReferenceError | TypeError

definition showErrorMessage :: "bool \<Rightarrow> message option \<Rightarrow> js_error + unit" where
  "showErrorMessage shouldShow msg = (if shouldShow then Inl (Error msg) else Inr ())"

text \<open>
  \<open>validateAndGetHeadingRange\<close>, \<open>getStartingValues\<close> and \<open>checkAutoHeader\<close> call
  \<open>showErrorMessage(options.debug, ...)\<close> where \<open>options\<close> is no parameter or local of
  theirs and is not declared in the enclosing function either (the \<open>options\<close> of
  \<open>autoHeaders\<close> is local to \<open>autoHeaders\<close>). The identifier is therefore resolved in
  the global scope. The model takes that binding as a parameter: \<open>None\<close> when there is no
  global \<open>options\<close> (the read raises \<open>ReferenceError\<close>), \<open>Some d\<close> when there is one
  and \<open>d\<close> is the truthiness of its \<open>debug\<close> property.
\<close>

definition showErrorMessageGlobal :: "bool option \<Rightarrow> message option \<Rightarrow> js_error + unit" where
  "showErrorMessageGlobal g msg =
     (case g of None \<Rightarrow> Inl ReferenceError | Some d \<Rightarrow> showErrorMessage d msg)"

definition andThen :: "'e + 'a \<Rightarrow> ('a \<Rightarrow> 'e + 'b) \<Rightarrow> 'e + 'b" where
  "andThen m f = (case m of Inl e \<Rightarrow> Inl e | Inr x \<Rightarrow> f x)"

section \<open>Strings and numbers\<close>

text \<open>
  Strings are lists of 8-bit characters. The numbers that count headings are doubles
  whose value is an integer (\<open>parseInt\<close> results, minus one, plus one); such a double
  is modelled by the integer that is its value.
\<close>

definition isLineTerminator :: "char \<Rightarrow> bool" where
  "isLineTerminator c = (c \<in> set [CHR ''\<newline>'', CHR 0x0D])"

text \<open>The characters below 256 that \<open>\s\<close> and \<open>trim\<close> treat as white space.\<close>

definition isSpace :: "char \<Rightarrow> bool" where
  "isSpace c =
     (c \<in> set [CHR 0x09, CHR ''\<newline>'', CHR 0x0B, CHR 0x0C, CHR 0x0D, CHR '' '', CHR 0xA0])"

definition isDigit :: "char \<Rightarrow> bool" where
  "isDigit c = (c \<in> set ''0123456789'')"

definition isLetter :: "char \<Rightarrow> bool" where
  "isLetter c = (c \<in> set ''abcdefghijklmnopqrstuvwxyzABCDEFGHIJKLMNOPQRSTUVWXYZ'')"

definition trim :: "string \<Rightarrow> string" where
  "trim s = rev (dropWhile isSpace (rev (dropWhile isSpace s)))"

text \<open>
  \<open>String.prototype.split\<close> with a string separator: the occurrences of the separator
  are found from the left, without overlap; the empty separator splits into single
  characters.
\<close>

function splitAcc :: "string \<Rightarrow> string \<Rightarrow> string \<Rightarrow> string list" where
  "splitAcc sep acc s =
     (if s = [] then [acc]
      else if sep \<noteq> [] \<and> take (length sep) s = sep
           then acc # splitAcc sep [] (drop (length sep) s)
           else splitAcc sep (acc @ [hd s]) (tl s))"
  by pat_completeness auto
termination
  by (relation "measure (\<lambda>(sep, acc, s). length s)") auto

declare splitAcc.simps [simp del]

definition splitString :: "string \<Rightarrow> string \<Rightarrow> string list" where
  "splitString s sep = (if sep = [] then map (\<lambda>c. [c]) s else splitAcc sep [] s)"

fun join :: "string \<Rightarrow> string list \<Rightarrow> string" where
  "join sep [] = []"
| "join sep [x] = x"
| "join sep (x # y # ys) = x @ sep @ join sep (y # ys)"

function decimalString :: "int \<Rightarrow> string" where
  "decimalString n =
     (if n < 10 then [''0123456789'' ! nat n]
      else decimalString (n div 10) @ [''0123456789'' ! nat (n mod 10)])"
  by pat_completeness auto
termination
  by (relation "measure (\<lambda>n. nat n)") auto

declare decimalString.simps [simp del]

text \<open>
  Rounding to a double. A double has a significand of 53 bits, so every integer of
  magnitude below \<open>2 ^ 53\<close> is a double. A larger integer of magnitude \<open>a\<close>, of
  \<open>bitLength a\<close> bits, lies between two neighbouring multiples of
  \<open>u = 2 ^ (bitLength a - 53)\<close>, which are doubles, and is rounded to the nearer one;
  half way between them, to the one whose multiplier is even. \<open>toDouble n\<close> is the
  double that a decimal numeral of the value \<open>n\<close> denotes, and that \<open>+\<close> and \<open>-\<close>
  return when \<open>n\<close> is their exact result. It is used below the magnitude
  \<open>2 ^ 1024 - 2 ^ 970\<close>, from which on the nearest double is an infinity.
\<close>

function bitLength :: "int \<Rightarrow> nat" where
  "bitLength n = (if n \<le> 0 then 0 else Suc (bitLength (n div 2)))"
  by pat_completeness auto
termination
  by (relation "measure (\<lambda>n. nat n)") auto

declare bitLength.simps [simp del]

definition toDouble :: "int \<Rightarrow> int" where
  "toDouble n =
     (let a = \<bar>n\<bar>
      in if a < 2 ^ 53 then n
         else (let u = 2 ^ (bitLength a - 53);
                   q = a div u;
                   r = a mod u;
                   q' = (if u < 2 * r \<or> (u = 2 * r \<and> odd q) then q + 1 else q)
               in sgn n * (q' * u)))"

text \<open>
  The conversion of a number to a string (\<open>Number::toString\<close>, radix 10), for a double
  with an integer value. The digits written are those of the decimal numeral with the
  fewest significant digits that denotes this double (of two such numerals, the one
  nearer to the double; of two equally near, the one whose last significant digit is
  even, as the standard recommends). Below \<open>2 ^ 53\<close> every integer is a double of its
  own, so that numeral is the integer itself. A numeral below \<open>10 ^ 21\<close> is written with
  all its digits; from \<open>10 ^ 21\<close> on, it is written with an exponent (\<open>1e+21\<close>,
  \<open>1.2e+21\<close>).

  \<open>shortestSearch a e\<close> looks for a numeral that ends in at least \<open>e\<close> zeros, for the
  largest such \<open>e\<close> first: the two multiples of \<open>10 ^ e\<close> next to \<open>a\<close> are the only
  ones that can denote \<open>a\<close>.
\<close>

function digitCount :: "int \<Rightarrow> nat" where
  "digitCount n = (if n < 10 then 1 else Suc (digitCount (n div 10)))"
  by pat_completeness auto
termination
  by (relation "measure (\<lambda>n. nat n)") auto

declare digitCount.simps [simp del]

fun shortestSearch :: "int \<Rightarrow> nat \<Rightarrow> int" where
  "shortestSearch a 0 = a"
| "shortestSearch a (Suc e) =
     (let p = 10 ^ Suc e;
          lo = (a div p) * p;
          hi = lo + p;
          okLo = (toDouble lo = a);
          okHi = (toDouble hi = a)
      in if okLo \<and> okHi
         then (if a - lo < hi - a \<or> (a - lo = hi - a \<and> even (a div p)) then lo else hi)
         else if okLo then lo
         else if okHi then hi
         else shortestSearch a e)"

definition shortestDecimal :: "int \<Rightarrow> int" where
  "shortestDecimal a = shortestSearch a (digitCount a - 1)"

function stripZeros :: "int \<Rightarrow> int" where
  "stripZeros n = (if n \<le> 0 \<or> n mod 10 \<noteq> 0 then n else stripZeros (n div 10))"
  by pat_completeness auto
termination
  by (relation "measure (\<lambda>n. nat n)") auto

declare stripZeros.simps [simp del]

definition exponentForm :: "int \<Rightarrow> string" where
  "exponentForm v =
     (let s = decimalString (stripZeros v);
          e = int (digitCount v) - 1
      in (if length s = 1 then s else hd s # ''.'' @ tl s) @ ''e+'' @ decimalString e)"

definition numberToString :: "int \<Rightarrow> string" where
  "numberToString i =
     (let a = \<bar>i\<bar>;
          digits = (if a < 2 ^ 53 then decimalString a
                    else (let v = shortestDecimal a
                          in if v < 10 ^ 21 then decimalString v else exponentForm v))
      in if i < 0 then ''-'' @ digits else digits)"

definition digitValue :: "char \<Rightarrow> int" where
  "digitValue c = int (length (takeWhile (\<lambda>d. d \<noteq> c) ''0123456789''))"

definition digitsValue :: "string \<Rightarrow> int" where
  "digitsValue ds = foldl (\<lambda>n c. 10 * n + digitValue c) 0 ds"

text \<open>
  \<open>parseInt(x, 10)\<close>. The argument is converted to a string (\<open>undefined\<close> gives the
  text \<open>undefined\<close>), leading white space is skipped, one sign is read, and the longest
  prefix of decimal digits is the numeral: without a digit the result is \<open>NaN\<close>,
  otherwise the double nearest to the numeral's value, which is an infinity from
  \<open>2 ^ 1024 - 2 ^ 970\<close> on. (The standard lets an implementation replace the digits
  after the twentieth by zeros; here all digits are read.)
\<close>

datatype parsedNumber = NotANumber | Infinite | Finite int

definition parseInt :: "string option \<Rightarrow> parsedNumber" where
  "parseInt x =
     (let s = dropWhile isSpace (case x of None \<Rightarrow> ''undefined'' | Some t \<Rightarrow> t);
          negative = (s \<noteq> [] \<and> hd s = CHR ''-'');
          body = (if s \<noteq> [] \<and> (hd s = CHR ''-'' \<or> hd s = CHR ''+'') then tl s else s);
          ds = takeWhile isDigit body
      in if ds = [] then NotANumber
         else if 2 ^ 1024 - 2 ^ 970 \<le> digitsValue ds then Infinite
         else Finite (toDouble (if negative then - digitsValue ds else digitsValue ds)))"

section \<open>Configuration\<close>

text \<open>
  The object given to \<open>setDefaultOptions\<close> (\<open>docsifyAutoHeadersDefaults\<close> merged with
  the page's settings). \<open>None\<close> is \<open>undefined\<close>; \<open>sidebar\<close> and \<open>debug\<close> are read only
  through \<open>!!\<close> and as a condition, so they are kept as their truthiness. The value of
  \<open>levels\<close> is a number, an object with \<open>start\<close> and \<open>finish\<close> (a number each, or
  \<open>undefined\<close>), \<open>null\<close>, or a truthy value of another type. \<open>NaN\<close> and the
  infinities are outside the model.
\<close>

datatype bound = Number real | Undefined

datatype levelsInput =
    LevelsNumber real
  | LevelsObject bound bound
  | LevelsNull
  | LevelsOther

record userOptions =
  user_separator :: "string option"
  user_levels :: "levelsInput option"
  user_sidebar :: bool
  user_debug :: bool

text \<open>
  The value \<open>setDefaultOptions\<close> computes for \<open>separator\<close>: a string, \<open>undefined\<close>, or
  a member that the object literal \<open>separatorMap\<close> inherits from \<open>Object.prototype\<close>
  (\<open>separatorMap[k]\<close> is a property read, which follows the prototype chain). Such a
  member is a function or an object; \<open>SepInherited name t\<close> is the member \<open>name\<close>,
  and \<open>t\<close> the text that it converts to where a string is needed.
\<close>

datatype separatorValue = SepString string | SepUndefined | SepInherited string string

text \<open>
  What the three uses of the separator make of such a value. \<open>split\<close> does not split
  on \<open>undefined\<close> and splits on the text of any other value; \<open>join\<close> puts a comma for
  \<open>undefined\<close> and the text of any other value; \<open>+\<close> appends the text, which is
  \<open>undefined\<close> for \<open>undefined\<close>.
\<close>

fun joinSeparator :: "separatorValue \<Rightarrow> string" where
  "joinSeparator (SepString sep) = sep"
| "joinSeparator SepUndefined = '',''"
| "joinSeparator (SepInherited name t) = t"

fun separatorText :: "separatorValue \<Rightarrow> string" where
  "separatorText (SepString sep) = sep"
| "separatorText SepUndefined = ''undefined''"
| "separatorText (SepInherited name t) = t"

record defaultOptions =
  default_separator :: separatorValue
  default_levels :: levelsInput
  default_sidebar :: bool
  default_debug :: bool

definition separatorMap :: "(string \<times> string) list" where
  "separatorMap =
     [(''decimal'', ''.''), (''dot'', ''.''), (''dash'', ''-''), (''hyphen'', ''-''),
      (''bracket'', '')''), (''parenthesis'', '')'')]"

text \<open>The properties of \<open>Object.prototype\<close> (ECMAScript, with its Annex B).\<close>

definition objectPrototype :: "string list" where
  "objectPrototype =
     [''constructor'', ''hasOwnProperty'', ''isPrototypeOf'', ''propertyIsEnumerable'',
      ''toLocaleString'', ''toString'', ''valueOf'', ''__proto__'',
      ''__defineGetter__'', ''__defineSetter__'', ''__lookupGetter__'', ''__lookupSetter__'']"

definition truthyLevels :: "levelsInput \<Rightarrow> bool" where
  "truthyLevels l =
     (case l of LevelsNumber n \<Rightarrow> n \<noteq> 0 | LevelsObject a b \<Rightarrow> True
              | LevelsNull \<Rightarrow> False | LevelsOther \<Rightarrow> True)"

text \<open>
  \<open>setDefaultOptions\<close>. Every value in \<open>separatorMap\<close> and every inherited member is
  truthy, so \<open>separatorMap[options.separator] || options.separator\<close> is the looked-up
  value when there is one. The text that an inherited member converts to is defined by
  the implementation (for a built-in function, up to white space); the first argument,
  \<open>memberText\<close>, gives it for each name.
\<close>

definition setDefaultOptions ::
  "(string \<Rightarrow> string) \<Rightarrow> userOptions \<Rightarrow> js_error + defaultOptions" where
  "setDefaultOptions memberText options =
     andThen
       (if user_separator options = None \<or> user_separator options = Some []
           \<or> user_levels options = None
        then showErrorMessage (user_debug options) (Some ConfigurationNotSetCorrectly)
        else Inr ())
       (\<lambda>_. Inr \<lparr>
          default_separator =
            (case user_separator options of
               None \<Rightarrow> SepUndefined
             | Some s \<Rightarrow>
                 (case map_of separatorMap s of
                    Some v \<Rightarrow> SepString v
                  | None \<Rightarrow> if s \<in> set objectPrototype then SepInherited s (memberText s)
                            else SepString s)),
          default_levels =
            (case user_levels options of
               None \<Rightarrow> LevelsNumber 6
             | Some l \<Rightarrow> if truthyLevels l then l else LevelsNumber 6),
          default_sidebar = user_sidebar options,
          default_debug = user_debug options \<rparr>)"

text \<open>
  \<open>validateAndReturnSidebar\<close> is only ever given the result of \<open>!!options.sidebar\<close>,
  a boolean, which it returns.
\<close>

definition validateAndReturnSidebar :: "bool \<Rightarrow> bool" where
  "validateAndReturnSidebar input = input"

text \<open>
  The comparisons \<open>>=\<close>, \<open><=\<close> and \<open>>\<close> of JavaScript on these values: \<open>undefined\<close>
  converts to \<open>NaN\<close>, and every comparison with \<open>NaN\<close> is false.
\<close>

fun jsGe :: "bound \<Rightarrow> bound \<Rightarrow> bool" where
  "jsGe (Number a) (Number b) = (a \<ge> b)"
| "jsGe _ _ = False"

fun jsLe :: "bound \<Rightarrow> bound \<Rightarrow> bool" where
  "jsLe (Number a) (Number b) = (a \<le> b)"
| "jsLe _ _ = False"

fun jsGt :: "bound \<Rightarrow> bound \<Rightarrow> bool" where
  "jsGt (Number a) (Number b) = (a > b)"
| "jsGt _ _ = False"

definition isInRange :: "bound \<Rightarrow> bound \<Rightarrow> bound \<Rightarrow> bool" where
  "isInRange v lo hi = (jsGe v lo \<and> jsLe v hi)"

definition isNumber :: "bound \<Rightarrow> bool" where
  "isNumber b = (case b of Number _ \<Rightarrow> True | Undefined \<Rightarrow> False)"

text \<open>
  One entry of the configuration objects keyed by \<open>h1\<close> .. \<open>h6\<close>: \<open>inScope\<close> comes from
  \<open>validateAndGetHeadingRange\<close>, \<open>counter\<close> from \<open>getStartingValues\<close> (\<open>None\<close> while the
  entry has no \<open>counter\<close> property). The keys \<open>h1\<close> .. \<open>h6\<close> are modelled by the numbers
  1 .. 6 (key \<open>hk\<close> is \<open>k\<close>). An object with such keys is the list of its entries, in the
  order of \<open>Object.entries\<close> and of \<open>for ... in\<close>, each key once.
\<close>

record levelConfig =
  inScope :: bool
  counter :: "string option"

text \<open>
  \<open>validateAndGetHeadingRange\<close>. The first argument is the global binding of \<open>options\<close>
  (see \<open>showErrorMessageGlobal\<close>). The last check reads \<open>errorMessage.headingLevelRange\<close>,
  a key the table does not have. Destructuring \<open>null\<close> raises \<open>TypeError\<close>.
\<close>

definition validateAndGetHeadingRange ::
  "bool option \<Rightarrow> levelsInput \<Rightarrow> js_error + (nat \<times> levelConfig) list" where
  "validateAndGetHeadingRange g input =
     andThen
       (case input of
          LevelsNumber n \<Rightarrow> Inr ()
        | LevelsObject a b \<Rightarrow> Inr ()
        | LevelsNull \<Rightarrow> showErrorMessageGlobal g (Some InvalidHeadingLevels)
        | LevelsOther \<Rightarrow> showErrorMessageGlobal g (Some InvalidHeadingLevels))
       (\<lambda>_. andThen
          (case input of
             LevelsNumber n \<Rightarrow> Inr (Number 1, Number n)
           | LevelsObject start finish \<Rightarrow>
               andThen
                 (if \<not> isNumber start \<or> \<not> isNumber finish
                  then showErrorMessageGlobal g (Some NonNumericValue) else Inr ())
                 (\<lambda>_. andThen
                    (if jsGt start finish
                     then showErrorMessageGlobal g (Some InvalidHeadingLevelOrder) else Inr ())
                    (\<lambda>_. Inr (start, finish)))
           | LevelsNull \<Rightarrow> Inl TypeError
           | LevelsOther \<Rightarrow> Inr (Undefined, Undefined))
          (\<lambda>(start, finish). andThen
             (if \<not> isInRange start (Number 1) (Number 6) \<or> \<not> isInRange finish (Number 1) (Number 6)
              then showErrorMessageGlobal g None else Inr ())
             (\<lambda>_. Inr (map (\<lambda>i. (i, \<lparr>inScope = isInRange (Number (real i)) start finish,
                                           counter = None\<rparr>))
                         [1..<7]))))"

definition isAllNumeric :: "string \<Rightarrow> bool" where
  "isAllNumeric str = (str \<noteq> [] \<and> list_all isDigit str)"

definition isAllAlphabetic :: "string \<Rightarrow> bool" where
  "isAllAlphabetic str = (str \<noteq> [] \<and> list_all isLetter str)"

text \<open>
  \<open>getStartingValues\<close>, from the list of trimmed elements on (\<open>startingValuesOf\<close>), and
  as a whole. The result maps key \<open>h(i+1)\<close> to \<open>elements[i]\<close>.
\<close>

definition startingValuesOf :: "bool option \<Rightarrow> string list \<Rightarrow> js_error + (nat \<times> string) list" where
  "startingValuesOf g elements =
     (let isNumeric = list_all isAllNumeric elements;
          isAlphabetic = list_all isAllAlphabetic elements
      in andThen
           (if \<not> (isNumeric \<or> isAlphabetic)
            then showErrorMessageGlobal g (Some InvalidHeadingLevels) else Inr ())
           (\<lambda>_. let padded = elements @ replicate (6 - length elements) (if isNumeric then ''1'' else ''A'')
                 in Inr (map (\<lambda>i. (i + 1, padded ! i)) [0..<6])))"

text \<open>
  \<open>headerNumbers.split(separator)\<close>, for the values that the separator can have (see
  \<open>joinSeparator\<close>).
\<close>

definition splitBy :: "string \<Rightarrow> separatorValue \<Rightarrow> string list" where
  "splitBy s sep =
     (case sep of
        SepString t \<Rightarrow> splitString s t
      | SepUndefined \<Rightarrow> [s]
      | SepInherited name t \<Rightarrow> splitString s t)"

definition getStartingValues ::
  "bool option \<Rightarrow> string \<Rightarrow> separatorValue \<Rightarrow> js_error + (nat \<times> string) list" where
  "getStartingValues g headerNumbers sep =
     startingValuesOf g (map trim (splitBy headerNumbers sep))"

text \<open>
  \<open>checkAutoHeader\<close>. The pattern is anchored at the start of the trimmed text; after
  one of the two openings the group takes the longest run of its character class, which
  must not be empty, and the closing \<open> -->\<close> is optional, so the group is that run.
  Without a match and without a raised error, \<open>match[1]\<close> reads a property of \<open>null\<close>.
\<close>

definition isSignifierChar :: "char \<Rightarrow> bool" where
  "isSignifierChar c = (isDigit c \<or> isLetter c \<or> c \<in> set ''.-:,~'')"

definition autoHeaderMatch :: "string \<Rightarrow> string option" where
  "autoHeaderMatch s =
     (let rest =
            (if take 12 s = ''@autoHeader:'' then Some (drop 12 s)
             else if take 16 s = ''<!-- autoHeader:'' then Some (drop 16 s)
             else None)
      in case rest of
           None \<Rightarrow> None
         | Some r \<Rightarrow> (let grp = takeWhile isSignifierChar r in if grp = [] then None else Some grp))"

definition checkAutoHeader :: "bool option \<Rightarrow> string \<Rightarrow> js_error + string" where
  "checkAutoHeader g markdown =
     (case autoHeaderMatch (trim markdown) of
        None \<Rightarrow> andThen (showErrorMessageGlobal g (Some MissingAutoHeaderSignifier))
                  (\<lambda>_. Inl TypeError)
      | Some grp \<Rightarrow> Inr grp)"

text \<open>The \<open>options\<close> object of \<open>autoHeaders\<close>.\<close>

record options =
  separator :: separatorValue
  levels :: "(nat \<times> levelConfig) list"
  sidebar :: bool
  debug :: bool
  shouldContinue :: bool

section \<open>Counter state\<close>

record counts =
  reset :: int
  current :: int

record countContext =
  currentCounts :: "nat \<rightharpoonup> counts"
  scopedTagNames :: "nat set"

text \<open>
  \<open>createCountContextObjects\<close>: a \<open>Map\<close> and a \<open>Set\<close> built from the entries of the
  configuration object. \<open>Number.isFinite\<close> fails on \<open>NaN\<close> and on the infinities.
\<close>

definition createCountContextObjects :: "(nat \<times> levelConfig) list \<Rightarrow> countContext" where
  "createCountContextObjects lvls =
     (let configEntries = lvls
      in \<lparr> currentCounts =
             map_of (map (\<lambda>(key, entry).
                            let n = (case parseInt (counter entry) of
                                       Finite v \<Rightarrow> toDouble (v - 1)
                                     | NotANumber \<Rightarrow> 0
                                     | Infinite \<Rightarrow> 0)
                            in (key, \<lparr>reset = n, current = n\<rparr>))
                         configEntries),
           scopedTagNames = set (map fst (filter (\<lambda>(key, entry). inScope entry) configEntries)) \<rparr>)"

definition headingNameList :: "nat list" where
  "headingNameList = [1, 2, 3, 4, 5, 6]"

text \<open>
  The \<open>forEach\<close> that both renderers run over the names below the current heading:
  an entry the map has gets \<open>current = reset\<close> and then \<open>reset = 0\<close>.
\<close>

definition resetMinor :: "nat \<Rightarrow> (nat \<rightharpoonup> counts) \<Rightarrow> (nat \<rightharpoonup> counts)" where
  "resetMinor name cc =
     (case cc name of
        None \<Rightarrow> cc
      | Some nextMinorCounts \<Rightarrow>
          cc(name \<mapsto> (nextMinorCounts\<lparr>current := reset nextMinorCounts\<rparr>)\<lparr>reset := 0\<rparr>))"

definition resetBelow :: "nat list \<Rightarrow> (nat \<rightharpoonup> counts) \<Rightarrow> (nat \<rightharpoonup> counts)" where
  "resetBelow names cc = fold resetMinor names cc"

text \<open>
  The callback that \<open>parseMarkdown\<close> passes to \<open>replace\<close>, applied to one match
  \<open>(match, hashes, text)\<close>, with the \<open>options\<close> and the context it closes over. It
  returns the mutated context and the replacement text.
  \<open>counts.current += 1\<close> and \<open>currentCounts.get(...).current\<close> raise \<open>TypeError\<close> on a
  key the map does not have; the sum is a double (\<open>toDouble\<close>).
\<close>

definition replacer ::
  "options \<Rightarrow> countContext \<Rightarrow> string \<times> string \<times> string \<Rightarrow> js_error + (countContext \<times> string)" where
  "replacer opts ctx m =
     (case m of (match, hashes, text) \<Rightarrow>
       let headingLevel = length hashes;
           headingName = headingLevel;
           cc = resetBelow (drop headingLevel headingNameList) (currentCounts ctx)
       in (case cc headingName of
             None \<Rightarrow> Inl TypeError
           | Some c \<Rightarrow>
               let cc' = cc(headingName \<mapsto> c\<lparr>current := toDouble (current c + 1)\<rparr>);
                   ctx' = ctx\<lparr>currentCounts := cc'\<rparr>
               in if headingName \<in> scopedTagNames ctx then
                    (case those (map (\<lambda>i. map_option current (cc' (i + 1))) [0..<headingLevel]) of
                       None \<Rightarrow> Inl TypeError
                     | Some vals \<Rightarrow>
                         let label = join (joinSeparator (separator opts)) (map numberToString vals)
                                       @ separatorText (separator opts)
                         in Inr (ctx', hashes @ '' '' @ label @ '' '' @ text))
                  else Inr (ctx', match)))"

text \<open>
  A heading element of the rendered page: its tag (\<open>tagName.toLowerCase()\<close>, as a key)
  and its \<open>innerHTML\<close>.
\<close>

record headingNode =
  tagName :: nat
  innerHTML :: string

fun indexOf :: "nat list \<Rightarrow> nat \<Rightarrow> int" where
  "indexOf [] x = - 1"
| "indexOf (y # ys) x =
     (if y = x then 0 else (let i = indexOf ys x in if i < 0 then - 1 else i + 1))"

text \<open>
  \<open>applyCurrentCountThroughBoundContext\<close>. The first argument is the value of \<open>this\<close>
  in the function, \<open>None\<close> for \<open>undefined\<close>: the function starts by destructuring
  \<open>this\<close> into \<open>currentCounts\<close> and \<open>scopedTagNames\<close>, which raises \<open>TypeError\<close>
  on \<open>undefined\<close>. The mutated context and node are returned. \<open>reduce\<close> with
  \<open>concat\<close> collects the \<open>current\<close> of each name in order.
\<close>

definition applyCurrentCountThroughBoundContext ::
  "countContext option \<Rightarrow> headingNode \<Rightarrow> options
     \<Rightarrow> js_error + (countContext \<times> headingNode)" where
  "applyCurrentCountThroughBoundContext thisValue headingNode opts =
     (case thisValue of
        None \<Rightarrow> Inl TypeError
      | Some ctx \<Rightarrow>
     (let headingName = tagName headingNode;
          cc = resetBelow (drop (nat (indexOf headingNameList headingName + 1)) headingNameList)
                 (currentCounts ctx)
      in case cc headingName of
           None \<Rightarrow> Inl TypeError
         | Some c \<Rightarrow>
             let cc' = cc(headingName \<mapsto> c\<lparr>current := toDouble (current c + 1)\<rparr>);
                 ctx' = ctx\<lparr>currentCounts := cc'\<rparr>
             in if headingName \<in> scopedTagNames ctx then
                  (case fold (\<lambda>name counterList.
                               case counterList of
                                 None \<Rightarrow> None
                               | Some l \<Rightarrow> map_option (\<lambda>c. l @ [current c]) (cc' name))
                          (take (nat (indexOf headingNameList headingName + 1)) headingNameList)
                          (Some []) of
                     None \<Rightarrow> Inl TypeError
                   | Some vals \<Rightarrow>
                       let counterValue = join (joinSeparator (separator opts)) (map numberToString vals)
                                            @ separatorText (separator opts)
                       in Inr (ctx', headingNode\<lparr>innerHTML := counterValue @ '' '' @ innerHTML headingNode\<rparr>))
                else Inr (ctx', headingNode)))"

section \<open>The two renderers\<close>

text \<open>
  One attempt of \<open>/^(#{1,6})\s+(.*)$/gm\<close> at a position where \<open>^\<close> holds. The run of
  \<open>#\<close> must be 1 to 6 long and be followed by white space (with more than six, or
  with another character next, no shorter run helps either). \<open>\s+\<close> then takes all the
  white space that follows, line terminators included, \<open>(.*)\<close> takes the rest of that
  line, and \<open>$\<close> holds there. The result is \<open>hashes\<close>, the white space, \<open>text\<close>, and
  the input after the match.
\<close>

definition matchHeading :: "string \<Rightarrow> (string \<times> string \<times> string \<times> string) option" where
  "matchHeading s =
     (let hashes = takeWhile (\<lambda>c. c = CHR ''#'') s;
          rest = drop (length hashes) s
      in if 1 \<le> length hashes \<and> length hashes \<le> 6 \<and> rest \<noteq> [] \<and> isSpace (hd rest)
         then (let spaces = takeWhile isSpace rest;
                   after = dropWhile isSpace rest;
                   text = takeWhile (\<lambda>c. \<not> isLineTerminator c) after
               in Some (hashes, spaces, text, dropWhile (\<lambda>c. \<not> isLineTerminator c) after))
         else None)"

text \<open>
  The pieces a global \<open>replace\<close> cuts the text into: the matches, in order, and the text
  between them, which is copied. \<open>^\<close> holds at the start of the input and after a line
  terminator; the search goes on after the end of each match.
\<close>

datatype segment = Plain string | Heading string string string

function scanHeadings :: "bool \<Rightarrow> string \<Rightarrow> string \<Rightarrow> segment list" where
  "scanHeadings atLineStart acc s =
     (if s = [] then [Plain acc]
      else (case (if atLineStart then matchHeading s else None) of
              Some (hashes, spaces, text, rest) \<Rightarrow>
                Plain acc # Heading hashes spaces text
                  # scanHeadings (isLineTerminator (last (hashes @ spaces @ text))) [] rest
            | None \<Rightarrow> scanHeadings (isLineTerminator (hd s)) (acc @ [hd s]) (tl s)))"
  by pat_completeness auto
termination
proof (relation "measure (\<lambda>(atLineStart, acc, s). length s)", goal_cases)
  case 1
  show ?case by simp
next
  case (2 atLineStart acc s)
  then show ?case by (cases s) auto
next
  case (3 atLineStart acc s x2 hashes y spaces ya body rest)
  let ?h = "takeWhile (\<lambda>c. c = CHR ''#'') s"
  let ?r = "drop (length ?h) s"
  from 3 have m: "matchHeading s = Some (hashes, spaces, body, rest)"
    by (auto split: if_splits)
  then have h: "1 \<le> length ?h"
    and r: "rest = dropWhile (\<lambda>c. \<not> isLineTerminator c) (dropWhile isSpace ?r)"
    by (auto simp: matchHeading_def Let_def split: if_splits)
  have "length rest \<le> length (dropWhile isSpace ?r)"
    unfolding r by (rule length_dropWhile_le)
  also have "\<dots> \<le> length ?r"
    by (rule length_dropWhile_le)
  also have "\<dots> < length s"
    using h length_takeWhile_le[of "\<lambda>c. c = CHR ''#''" s] by simp
  finally show ?case by simp
qed

declare scanHeadings.simps [simp del]

fun replaceSegments :: "options \<Rightarrow> countContext \<Rightarrow> segment list \<Rightarrow> js_error + string" where
  "replaceSegments opts ctx [] = Inr []"
| "replaceSegments opts ctx (Plain s # segs) =
     andThen (replaceSegments opts ctx segs) (\<lambda>out. Inr (s @ out))"
| "replaceSegments opts ctx (Heading hashes spaces text # segs) =
     andThen (replacer opts ctx (hashes @ spaces @ text, hashes, text))
       (\<lambda>(ctx', replacement).
          andThen (replaceSegments opts ctx' segs) (\<lambda>out. Inr (replacement @ out)))"

definition parseMarkdown :: "string \<Rightarrow> options \<Rightarrow> (nat \<times> levelConfig) list \<Rightarrow> js_error + string" where
  "parseMarkdown markdown opts lvls =
     replaceSegments opts (createCountContextObjects lvls) (scanHeadings True [] markdown)"

text \<open>
  \<open>applyCurrentCountThroughBoundContext\<close> is an arrow function, and
  \<open>applyScopedHeadingCounts\<close> calls it as
  \<open>applyCurrentCountThroughBoundContext.call({ currentCounts, scopedTagNames }, ...)\<close>.
  An arrow function has no \<open>this\<close> of its own: the first argument of \<open>call\<close> is
  ignored, and \<open>this\<close> in its body is the \<open>this\<close> of the enclosing function. That
  function is the strict-mode function expression that wraps the whole file and is called
  without a receiver, so its \<open>this\<close> is \<open>undefined\<close>.
\<close>

definition arrowCallThis :: "countContext \<Rightarrow> countContext option" where
  "arrowCallThis thisArg = None"

text \<open>
  The \<open>forEach\<close> over the heading elements of the page. The elements are mutated in
  place; the model returns them, and only when no call raised.
\<close>

fun applyToHeadingList ::
  "countContext \<Rightarrow> options \<Rightarrow> headingNode list \<Rightarrow> js_error + headingNode list" where
  "applyToHeadingList ctx opts [] = Inr []"
| "applyToHeadingList ctx opts (heading # headingList) =
     andThen (applyCurrentCountThroughBoundContext (arrowCallThis ctx) heading opts)
       (\<lambda>(ctx', heading').
          andThen (applyToHeadingList ctx' opts headingList) (\<lambda>out. Inr (heading' # out)))"

text \<open>
  \<open>applyScopedHeadingCounts\<close>: the input with its \<open>type\<close>. For \<open>html\<close> the input is
  the list that \<open>querySelectorAll\<close> gives, the function returns \<open>undefined\<close> and the
  result here is the mutated elements; for \<open>markdown\<close> it is the returned text.
\<close>

datatype renderInput = Html "headingNode list" | Markdown string

datatype renderOutput = HtmlNodes "headingNode list" | MarkdownText string

definition applyScopedHeadingCounts ::
  "(nat \<times> levelConfig) list \<Rightarrow> options \<Rightarrow> renderInput \<Rightarrow> js_error + renderOutput" where
  "applyScopedHeadingCounts lvls opts input =
     (case input of
        Html headingList \<Rightarrow>
          andThen (applyToHeadingList (createCountContextObjects lvls) opts headingList)
            (\<lambda>nodes. Inr (HtmlNodes nodes))
      | Markdown markdown \<Rightarrow>
          andThen (parseMarkdown markdown opts lvls) (\<lambda>result. Inr (MarkdownText result)))"

section \<open>The hooks\<close>

text \<open>
  The object literal that \<open>autoHeaders\<close> builds for \<open>options\<close> from the result of
  \<open>setDefaultOptions\<close>. The calls in it are in no \<open>try\<close>.
\<close>

definition initialOptions :: "bool option \<Rightarrow> defaultOptions \<Rightarrow> js_error + options" where
  "initialOptions g defaults =
     andThen (validateAndGetHeadingRange g (default_levels defaults)) (\<lambda>headings.
       Inr \<lparr>separator = default_separator defaults, levels = headings,
            sidebar = validateAndReturnSidebar (default_sidebar defaults),
            debug = default_debug defaults, shouldContinue = False\<rparr>)"

text \<open>
  The loop that merges, for each key of \<open>headingRanges\<close>, the entry of that key with the
  entry of \<open>startingHeadingValues\<close> for it.
\<close>

definition headingConfiguration ::
  "(nat \<times> levelConfig) list \<Rightarrow> (nat \<times> string) list \<Rightarrow> (nat \<times> levelConfig) list" where
  "headingConfiguration headingRanges startingHeadingValues =
     map (\<lambda>(key, r). (key, \<lparr>inScope = inScope r,
                               counter = map_of startingHeadingValues key\<rparr>))
         headingRanges"

text \<open>
  The first \<open>beforeEach\<close> hook of \<open>autoHeaders\<close>. Its \<open>try\<close> block (\<open>signifierTry\<close>)
  either completes (new options, \<open>cleanedMarkdown\<close>) or raises; \<open>catch\<close> and \<open>finally\<close>
  turn both into the updated options and the argument of \<open>next\<close>, where \<open>None\<close> is
  \<open>undefined\<close>, the value of \<open>cleanedMarkdown\<close> before its assignment. Here \<open>options\<close> is
  the local of \<open>autoHeaders\<close>. \<open>getStartingValues\<close> returns an object, which is truthy,
  so the check \<open>!startingHeadingValues\<close> never holds.
\<close>

definition signifierTry ::
  "bool option \<Rightarrow> defaultOptions \<Rightarrow> options \<Rightarrow> string \<Rightarrow> js_error + (options \<times> string)" where
  "signifierTry g defaults opts markdown =
     andThen (checkAutoHeader g markdown) (\<lambda>headingSignifier.
     andThen (if headingSignifier = []
              then showErrorMessage (debug opts) (Some MissingAutoHeaderSignifier) else Inr ()) (\<lambda>_.
     andThen (validateAndGetHeadingRange g (default_levels defaults)) (\<lambda>headingRanges.
     andThen (getStartingValues g headingSignifier (separator opts)) (\<lambda>startingHeadingValues.
       Inr (opts\<lparr>levels := headingConfiguration headingRanges startingHeadingValues,
                 shouldContinue := True\<rparr>,
               join ''\<newline>'' (drop 1 (splitString markdown ''\<newline>'')))))))"

definition beforeEachSignifier ::
  "bool option \<Rightarrow> defaultOptions \<Rightarrow> options \<Rightarrow> string \<Rightarrow> options \<times> string option" where
  "beforeEachSignifier g defaults opts markdown =
     (case signifierTry g defaults opts markdown of
        Inr (opts', cleanedMarkdown) \<Rightarrow> (opts', Some cleanedMarkdown)
      | Inl error \<Rightarrow> (opts\<lparr>shouldContinue := False\<rparr>, None))"

text \<open>
  The second \<open>beforeEach\<close> hook (\<open>sidebar\<close> true). The check of \<open>shouldContinue\<close> is
  outside the \<open>try\<close>, so its error leaves the hook; \<open>Inr x\<close> is the call \<open>next(x)\<close>.
  The hook receives what the host passes on, \<open>None\<close> for \<open>undefined\<close>, on which
  \<open>markdown.replace\<close> raises \<open>TypeError\<close> inside the \<open>try\<close>. The \<open>afterEach\<close> hook
  that is registered instead when \<open>sidebar\<close> is false is not modelled; the function it
  calls, \<open>applyScopedHeadingCounts\<close> on heading elements, is.
\<close>

definition beforeEachRender :: "options \<Rightarrow> string option \<Rightarrow> js_error + string option" where
  "beforeEachRender opts markdown =
     andThen (if \<not> shouldContinue opts
              then showErrorMessage (debug opts) (Some ExitingError) else Inr ())
       (\<lambda>_. Inr (case markdown of
                    None \<Rightarrow> None
                  | Some md \<Rightarrow>
                      (case applyScopedHeadingCounts (levels opts) opts (Markdown md) of
                         Inr (MarkdownText output) \<Rightarrow> Some output
                       | _ \<Rightarrow> None)))"

section \<open>The specification's counter step and labels\<close>

text \<open>
  The step \<open>advance\<close> as the specification words it, on a counter state that has all six
  levels: every level deeper than \<open>L\<close> gets \<open>current := reset\<close> and then \<open>reset := 0\<close>,
  and \<open>current\<close> at \<open>L\<close> grows by one.
\<close>

definition spec_advance :: "nat \<Rightarrow> (nat \<Rightarrow> counts) \<Rightarrow> nat \<Rightarrow> counts" where
  "spec_advance L cs k =
     (if L < k \<and> k \<le> 6 then \<lparr>reset = 0, current = reset (cs k)\<rparr>
      else if k = L then \<lparr>reset = reset (cs k), current = current (cs k) + 1\<rparr>
      else cs k)"

text \<open>
  The label as the specification words it: \<open>current\<close> at the levels 1 to \<open>L\<close>, joined
  with the separator, and one more separator.
\<close>

definition spec_label :: "string \<Rightarrow> nat \<Rightarrow> (nat \<Rightarrow> counts) \<Rightarrow> string" where
  "spec_label sep L cs = join sep (map (\<lambda>k. numberToString (current (cs k))) [1..<Suc L]) @ sep"

fun spec_labels :: "string \<Rightarrow> nat set \<Rightarrow> (nat \<Rightarrow> counts) \<Rightarrow> nat list \<Rightarrow> string option list" where
  "spec_labels sep scoped cs [] = []"
| "spec_labels sep scoped cs (L # Ls) =
     (if L \<in> scoped then Some (spec_label sep L (spec_advance L cs)) else None)
       # spec_labels sep scoped (spec_advance L cs) Ls"

text \<open>
  What the text renderer does with a label: it rewrites a match as \<open>hashes label text\<close>;
  without a label it leaves the match as it is.
\<close>

fun headingLevels :: "segment list \<Rightarrow> nat list" where
  "headingLevels [] = []"
| "headingLevels (Plain s # segs) = headingLevels segs"
| "headingLevels (Heading hashes spaces text # segs) = length hashes # headingLevels segs"

fun labelText :: "segment list \<Rightarrow> string option list \<Rightarrow> string" where
  "labelText [] ls = []"
| "labelText (Plain s # segs) ls = s @ labelText segs ls"
| "labelText (Heading hashes spaces text # segs) [] = hashes @ spaces @ text @ labelText segs []"
| "labelText (Heading hashes spaces text # segs) (None # ls) =
     hashes @ spaces @ text @ labelText segs ls"
| "labelText (Heading hashes spaces text # segs) (Some l # ls) =
     hashes @ '' '' @ l @ '' '' @ text @ labelText segs ls"

text \<open>
  The first line of a text, up to the first line feed, and what follows that line feed.
\<close>

definition firstLine :: "string \<Rightarrow> string" where
  "firstLine markdown = takeWhile (\<lambda>c. c \<noteq> CHR ''\<newline>'') markdown"

definition afterFirstLine :: "string \<Rightarrow> string" where
  "afterFirstLine markdown = drop 1 (dropWhile (\<lambda>c. c \<noteq> CHR ''\<newline>'') markdown)"

text \<open>Trimming at the end only.\<close>

definition rtrim :: "string \<Rightarrow> string" where
  "rtrim s = rev (dropWhile isSpace (rev s))"

text \<open>The form of a text that the pattern matches, and the group it yields.\<close>

definition isOpening :: "string \<Rightarrow> bool" where
  "isOpening a = (a = ''@autoHeader:'' \<or> a = ''<!-- autoHeader:'')"

text \<open>
  The starting values of a token list that is padded to six tokens with a filler: level
  \<open>i + 1\<close> has token \<open>i\<close>.
\<close>

definition paddedTokens :: "string list \<Rightarrow> string \<Rightarrow> (nat \<times> string) list" where
  "paddedTokens elements filler =
     map (\<lambda>i. (i + 1, (elements @ replicate (6 - length elements) filler) ! i)) [0..<6]"

section \<open>Example inputs\<close>

definition ctxW :: countContext where
  "ctxW = \<lparr>currentCounts = map_of (map (\<lambda>k. (k, \<lparr>reset = 0, current = int k\<rparr>)) [1..<7]),
            scopedTagNames = {1, 2, 3}\<rparr>"

text \<open>A counter state in which every counter is \<open>2 ^ 53\<close>.\<close>

definition ctxLimit :: countContext where
  "ctxLimit = \<lparr>currentCounts = map_of (map (\<lambda>k. (k, \<lparr>reset = 2 ^ 53, current = 2 ^ 53\<rparr>)) [1..<7]),
                scopedTagNames = {1, 2, 3}\<rparr>"

definition optsW :: options where
  "optsW = \<lparr>separator = SepString ''.'', levels = [], sidebar = True, debug = True, shouldContinue = True\<rparr>"

definition lvlsW :: "(nat \<times> levelConfig) list" where
  "lvlsW = map (\<lambda>k. (k, \<lparr>inScope = k \<le> 2, counter = Some ''3''\<rparr>)) [1, 2, 3, 4, 5, 6]"

definition mdW :: string where
  "mdW = ''# Intro\<newline>text\<newline>## Usage\<newline>### Details''"

definition nodesW :: "headingNode list" where
  "nodesW = [\<lparr>tagName = 1, innerHTML = ''Intro''\<rparr>, \<lparr>tagName = 2, innerHTML = ''Usage''\<rparr>,
             \<lparr>tagName = 3, innerHTML = ''Details''\<rparr>]"

text \<open>
  The configuration that the first hook builds from the level setting 6 and the seed
  tokens \<open>1\<close>, \<open>1\<close>.
\<close>

definition seedConfig :: "(nat \<times> levelConfig) list" where
  "seedConfig = headingConfiguration (map (\<lambda>i. (i, \<lparr>inScope = True, counter = None\<rparr>)) [1, 2, 3, 4, 5, 6])
       (map (\<lambda>i. (i, ''1'')) [1, 2, 3, 4, 5, 6])"

text \<open>The same with the seed token \<open>9007199254740993\<close>, which is \<open>2 ^ 53 + 1\<close>.\<close>

definition limitConfig :: "(nat \<times> levelConfig) list" where
  "limitConfig = headingConfiguration (map (\<lambda>i. (i, \<lparr>inScope = True, counter = None\<rparr>)) [1, 2, 3, 4, 5, 6])
       (map (\<lambda>i. (i, ''9007199254740993'')) [1, 2, 3, 4, 5, 6])"

definition mdOutline :: string where
  "mdOutline = ''# a\<newline>## b\<newline>## c\<newline># d\<newline>## e''"

definition optsDash :: options where
  "optsDash = \<lparr>separator = SepString ''-'', levels = [], sidebar = True, debug = False, shouldContinue = True\<rparr>"

definition alphaConfig :: "(nat \<times> levelConfig) list" where
  "alphaConfig = headingConfiguration (map (\<lambda>i. (i, \<lparr>inScope = True, counter = None\<rparr>)) [1, 2, 3, 4, 5, 6])
       (map (\<lambda>i. (i, ''A'')) [1, 2, 3, 4, 5, 6])"

definition defaultsW :: defaultOptions where
  "defaultsW = \<lparr>default_separator = SepString ''-'', default_levels = LevelsNumber 6,
                default_sidebar = True, default_debug = False\<rparr>"

text \<open>
  The texts that one implementation (V8) gives for the members that \<open>Object.prototype\<close>
  has: \<open>constructor\<close> is the function \<open>Object\<close>, \<open>__proto__\<close> is an object, and every
  other member is a function of its own name.
\<close>

definition nativeText :: "string \<Rightarrow> string" where
  "nativeText name =
     (if name = ''__proto__'' then ''[object Object]''
      else ''function '' @ (if name = ''constructor'' then ''Object'' else name)
             @ ''() { [native code] }'')"

definition userW :: "string \<Rightarrow> userOptions" where
  "userW s = \<lparr>user_separator = Some s, user_levels = Some (LevelsNumber 6), user_sidebar = True,
              user_debug = True\<rparr>"

section \<open>Properties\<close>

subsection \<open>The counter step\<close>

lemma resetMinor_apply:
  "resetMinor name cc k =
     (if k = name then map_option (\<lambda>c. \<lparr>reset = 0, current = reset c\<rparr>) (cc k) else cc k)"
  by (cases "cc name") (auto simp: resetMinor_def)

lemma resetBelow_apply:
  "distinct names \<Longrightarrow>
   resetBelow names cc k =
     (if k \<in> set names then map_option (\<lambda>c. \<lparr>reset = 0, current = reset c\<rparr>) (cc k) else cc k)"
  unfolding resetBelow_def
proof (induction names arbitrary: cc)
  case Nil
  then show ?case by simp
next
  case (Cons n ns)
  then show ?case by (auto simp: resetMinor_apply)
qed

lemma headingNameList_upt: "headingNameList = [1..<7]"
  by (simp add: headingNameList_def upt_rec)

lemma set_drop_names: "set (drop L headingNameList) = {k. L < k \<and> k \<le> 6}"
  by (auto simp: headingNameList_upt drop_upt)

lemma distinct_drop_names: "distinct (drop L headingNameList)"
  by (simp add: headingNameList_upt)

lemma indexOf_names: "1 \<le> L \<Longrightarrow> L \<le> 6 \<Longrightarrow> indexOf headingNameList L = int L - 1"
  by (auto simp: headingNameList_def Let_def)

lemma take_names: "L \<le> 6 \<Longrightarrow> take L headingNameList = [1..<Suc L]"
  by (simp add: headingNameList_upt take_upt)

lemma those_map_Some:
  "(\<And>x. x \<in> set xs \<Longrightarrow> f x = Some (g x)) \<Longrightarrow> those (map f xs) = Some (map g xs)"
  by (induction xs) auto

lemma fold_collect:
  "(\<And>x. x \<in> set xs \<Longrightarrow> m x = Some (g x)) \<Longrightarrow>
   fold (\<lambda>name counterList.
           case counterList of None \<Rightarrow> None
           | Some l \<Rightarrow> map_option (\<lambda>c. l @ [h c]) (m name)) xs (Some acc)
   = Some (acc @ map (\<lambda>x. h (g x)) xs)"
  by (induction xs arbitrary: acc) auto

lemma bitLength_power: "bitLength (2 ^ k) = Suc k"
proof (induction k)
  case 0
  show ?case by (simp add: bitLength.simps)
next
  case (Suc k)
  have "bitLength (2 ^ Suc k) = Suc (bitLength (2 ^ Suc k div 2))"
    by (subst bitLength.simps) simp
  then show ?case using Suc by simp
qed

lemma toDouble_safe: "\<bar>n\<bar> \<le> 2 ^ 53 \<Longrightarrow> toDouble n = n"
proof (cases "\<bar>n\<bar> < 2 ^ 53")
  case True
  then show ?thesis by (simp add: toDouble_def)
next
  case False
  assume "\<bar>n\<bar> \<le> 2 ^ 53"
  with False have a: "\<bar>n\<bar> = 9007199254740992" by simp
  have "bitLength 9007199254740992 = 54"
    using bitLength_power[of 53] by simp
  then have u: "(2::int) ^ (bitLength 9007199254740992 - 53) = 2"
    by simp
  have n: "sgn n * 9007199254740992 = n"
    using a by (cases "n < 0") (simp_all add: sgn_if)
  show ?thesis
    unfolding toDouble_def Let_def a u using n by simp
qed

text \<open>
  The doubles at work: from \<open>2 ^ 53\<close> on a sum with one is rounded, numbers are written
  with their shortest digits, and with an exponent from \<open>10 ^ 21\<close> on; a numeral of 310
  digits is read as an infinity, for which the counter starts at 0.
\<close>

lemma double_examples:
  "toDouble (9007199254740992 + 1) = 9007199254740992
   \<and> toDouble (9007199254740994 + 1) = 9007199254740996
   \<and> toDouble (- 9007199254740992 - 1) = - 9007199254740992
   \<and> numberToString 9007199254740992 = ''9007199254740992''
   \<and> numberToString (2 ^ 60) = ''1152921504606847000''
   \<and> numberToString (10 ^ 21) = ''1e+21''
   \<and> numberToString (2 ^ 70) = ''1.1805916207174113e+21''
   \<and> parseInt (Some (replicate 310 (CHR ''9''))) = Infinite
   \<and> currentCounts (createCountContextObjects
         [(1, \<lparr>inScope = True, counter = Some (replicate 310 (CHR ''9''))\<rparr>)]) 1
       = Some \<lparr>reset = 0, current = 0\<rparr>"
  by code_simp

lemma after_reset:
  assumes "\<And>k. 1 \<le> k \<Longrightarrow> k \<le> 6 \<Longrightarrow> cc k = Some (cs k)" "1 \<le> L" "L \<le> 6"
      and "\<bar>current (cs L)\<bar> < 2 ^ 53"
  shows "(resetBelow (drop L headingNameList) cc)
            (L \<mapsto> (cs L)\<lparr>current := toDouble (current (cs L) + 1)\<rparr>)
           = (\<lambda>k. if 1 \<le> k \<and> k \<le> 6 then Some (spec_advance L cs k) else cc k)"
proof -
  have "toDouble (current (cs L) + 1) = current (cs L) + 1"
    by (rule toDouble_safe) (use assms(4) in simp)
  then show ?thesis
    using assms(1-3)
    by (auto simp: fun_eq_iff resetBelow_apply distinct_drop_names set_drop_names spec_advance_def)
qed

lemma replacer_step:
  assumes dom: "\<And>k. 1 \<le> k \<Longrightarrow> k \<le> 6 \<Longrightarrow> currentCounts ctx k = Some (cs k)"
      and L: "1 \<le> L" "L \<le> 6" and h: "length hashes = L"
      and sep: "separator opts = SepString sep"
      and safe: "\<bar>current (cs L)\<bar> < 2 ^ 53"
  shows "replacer opts ctx (m, hashes, text) =
           Inr (ctx\<lparr>currentCounts :=
                      (\<lambda>k. if 1 \<le> k \<and> k \<le> 6 then Some (spec_advance L cs k)
                            else currentCounts ctx k)\<rparr>,
                if L \<in> scopedTagNames ctx
                then hashes @ '' '' @ spec_label sep L (spec_advance L cs) @ '' '' @ text
                else m)"
proof -
  let ?cc' = "\<lambda>k. if 1 \<le> k \<and> k \<le> 6 then Some (spec_advance L cs k) else currentCounts ctx k"
  let ?cc = "resetBelow (drop L headingNameList) (currentCounts ctx)"
  have cL: "?cc L = Some (cs L)"
    using dom L by (simp add: resetBelow_apply distinct_drop_names set_drop_names)
  have upd: "?cc(L \<mapsto> (cs L)\<lparr>current := toDouble (current (cs L) + 1)\<rparr>) = ?cc'"
    by (rule after_reset[where cs = cs, OF dom L safe])
  have get: "\<And>k. k \<in> set [1..<Suc L] \<Longrightarrow> ?cc' k = Some (spec_advance L cs k)"
    using L by auto
  have "map (\<lambda>i. map_option current (?cc' (i + 1))) [0..<L]
          = map (\<lambda>k. map_option current (?cc' k)) [1..<Suc L]"
    by (simp add: map_Suc_upt[symmetric] del: upt_Suc)
  moreover have "those (map (\<lambda>k. map_option current (?cc' k)) [1..<Suc L])
          = Some (map (\<lambda>k. current (spec_advance L cs k)) [1..<Suc L])"
    by (rule those_map_Some) (use get in auto)
  ultimately have vals: "those (map (\<lambda>i. map_option current (?cc' (i + 1))) [0..<L])
                = Some (map (\<lambda>k. current (spec_advance L cs k)) [1..<Suc L])"
    by simp
  show ?thesis
    using cL upd vals h sep by (simp add: replacer_def Let_def spec_label_def comp_def)
qed

text \<open>
  The body of \<open>applyCurrentCountThroughBoundContext\<close>, had it the counter state as its
  \<open>this\<close>, is the same step with the same label. (Called as the file calls it, it has
  not: see \<open>arrowCallThis\<close>.)
\<close>

lemma applyCurrentCount_step:
  assumes dom: "\<And>k. 1 \<le> k \<Longrightarrow> k \<le> 6 \<Longrightarrow> currentCounts ctx k = Some (cs k)"
      and L: "1 \<le> L" "L \<le> 6" and t: "tagName node = L"
      and sep: "separator opts = SepString sep"
      and safe: "\<bar>current (cs L)\<bar> < 2 ^ 53"
  shows "applyCurrentCountThroughBoundContext (Some ctx) node opts =
           Inr (ctx\<lparr>currentCounts :=
                      (\<lambda>k. if 1 \<le> k \<and> k \<le> 6 then Some (spec_advance L cs k)
                            else currentCounts ctx k)\<rparr>,
                if L \<in> scopedTagNames ctx
                then node\<lparr>innerHTML := spec_label sep L (spec_advance L cs) @ '' '' @ innerHTML node\<rparr>
                else node)"
proof -
  let ?cc' = "\<lambda>k. if 1 \<le> k \<and> k \<le> 6 then Some (spec_advance L cs k) else currentCounts ctx k"
  let ?cc = "resetBelow (drop L headingNameList) (currentCounts ctx)"
  have cL: "?cc L = Some (cs L)"
    using dom L by (simp add: resetBelow_apply distinct_drop_names set_drop_names)
  have upd: "?cc(L \<mapsto> (cs L)\<lparr>current := toDouble (current (cs L) + 1)\<rparr>) = ?cc'"
    by (rule after_reset[where cs = cs, OF dom L safe])
  have get: "\<And>k. k \<in> set [1..<Suc L] \<Longrightarrow> ?cc' k = Some (spec_advance L cs k)"
    using L by auto
  have ix: "nat (indexOf headingNameList L + 1) = L"
    using L by (simp add: indexOf_names)
  have vals: "fold (\<lambda>name counterList.
           case counterList of None \<Rightarrow> None
           | Some l \<Rightarrow> map_option (\<lambda>c. l @ [current c]) (?cc' name)) [1..<Suc L] (Some [])
      = Some ([] @ map (\<lambda>k. current (spec_advance L cs k)) [1..<Suc L])"
    by (rule fold_collect) (use get in auto)
  show ?thesis
    unfolding applyCurrentCountThroughBoundContext_def option.case Let_def t ix
      take_names[OF L(2)] cL upd vals sep
    by (simp add: spec_label_def comp_def)
qed

lemma ctxW_get: "1 \<le> k \<Longrightarrow> k \<le> 6 \<Longrightarrow> currentCounts ctxW k = Some \<lparr>reset = 0, current = int k\<rparr>"
proof -
  assume "1 \<le> k" "k \<le> 6"
  then have "k \<in> {1, 2, 3, 4, 5, 6}" by auto
  then show ?thesis by (auto simp: ctxW_def upt_rec)
qed

text \<open>
  Against claim C1 as stated. A counter at \<open>2 ^ 53\<close> is not incremented: the sum
  \<open>2 ^ 53 + 1\<close> is no double and is rounded back to \<open>2 ^ 53\<close>. The seed token
  \<open>9007199254740993\<close> leads there: it is read as \<open>2 ^ 53\<close>, the first heading is counted
  \<open>2 ^ 53\<close>, and so is the second. And the step of the tree renderer, called as
  \<open>applyScopedHeadingCounts\<close> calls it, makes no step at all: it raises \<open>TypeError\<close>.
\<close>

theorem advance_step_counterexample:
  "map_option current (currentCounts ctxLimit 1) = Some 9007199254740992
   \<and> map_option current
        (currentCounts (fst (projr (replacer optsW ctxLimit (''# a'', ''#'', ''a'')))) 1)
       = Some 9007199254740992
   \<and> parseInt (Some ''9007199254740993'') = Finite 9007199254740992
   \<and> parseMarkdown ''# a\<newline># b'' optsDash limitConfig
       = Inr ''# 9007199254740992- a\<newline># 9007199254740992- b''
   \<and> applyCurrentCountThroughBoundContext (arrowCallThis ctxW)
        \<lparr>tagName = 2, innerHTML = ''Usage''\<rparr> optsW = Inl TypeError"
proof -
  have before: "map_option current (currentCounts ctxLimit 1) = Some 9007199254740992"
    by code_simp
  have after: "map_option current
        (currentCounts (fst (projr (replacer optsW ctxLimit (''# a'', ''#'', ''a'')))) 1)
       = Some 9007199254740992"
    by code_simp
  have seed: "parseInt (Some ''9007199254740993'') = Finite 9007199254740992"
    by code_simp
  have labels: "parseMarkdown ''# a\<newline># b'' optsDash limitConfig
       = Inr ''# 9007199254740992- a\<newline># 9007199254740992- b''"
    by code_simp
  have tree: "applyCurrentCountThroughBoundContext (arrowCallThis ctxW)
        \<lparr>tagName = 2, innerHTML = ''Usage''\<rparr> optsW = Inl TypeError"
    by (simp add: arrowCallThis_def applyCurrentCountThroughBoundContext_def)
  from before after seed labels tree show ?thesis by (intro conjI)
qed

text \<open>
  Claim C1, amended. On a counter state that has the six levels, for a level \<open>L\<close> from 1
  to 6 at which \<open>current\<close> is a safe integer (its magnitude is below \<open>2 ^ 53\<close>), and for
  a separator that is a string, the step of the text renderer (\<open>replacer\<close>, on a match
  with \<open>L\<close> hashes) leaves the state in which every level deeper than \<open>L\<close> has
  \<open>current\<close> set to its former \<open>reset\<close> and \<open>reset\<close> set to 0 and in which \<open>current\<close>
  at \<open>L\<close> is one more (\<open>spec_advance\<close>). When \<open>L\<close> is in scope it writes the label that
  joins \<open>current\<close> at the levels 1 to \<open>L\<close> with the separator and ends with one more
  separator (\<open>spec_label\<close>); when it is not, the match stays as it is.
\<close>

theorem advance_step:
  assumes "\<And>k. 1 \<le> k \<Longrightarrow> k \<le> 6 \<Longrightarrow> currentCounts ctx k = Some (cs k)"
      and "1 \<le> L" and "L \<le> 6"
      and "length hashes = L"
      and "separator opts = SepString sep"
      and "\<bar>current (cs L)\<bar> < 2 ^ 53"
  shows "replacer opts ctx (m, hashes, text) =
           Inr (ctx\<lparr>currentCounts :=
                      (\<lambda>k. if 1 \<le> k \<and> k \<le> 6 then Some (spec_advance L cs k)
                            else currentCounts ctx k)\<rparr>,
                if L \<in> scopedTagNames ctx
                then hashes @ '' '' @ spec_label sep L (spec_advance L cs) @ '' '' @ text
                else m)"
  by (rule replacer_step[OF assms])

theorem advance_step_witness:
  "replacer optsW ctxW (''## Usage'', ''##'', ''Usage'')
     = Inr (ctxW\<lparr>currentCounts :=
                   (\<lambda>k. if 1 \<le> k \<and> k \<le> 6
                         then Some (spec_advance 2 (\<lambda>k. \<lparr>reset = 0, current = int k\<rparr>) k)
                         else currentCounts ctxW k)\<rparr>,
            ''## 1.3. Usage'')
   \<and> map_option current
        (currentCounts (fst (projr (replacer optsW ctxW (''## Usage'', ''##'', ''Usage'')))) 2)
       = Some 3"
  using advance_step[of ctxW "\<lambda>k. \<lparr>reset = 0, current = int k\<rparr>" 2 "''##''" optsW "''.''"
      "''## Usage''" "''Usage''", OF ctxW_get]
  by (simp add: ctxW_def optsW_def spec_label_def spec_advance_def numberToString_def
        decimalString.simps upt_rec)

subsection \<open>The two renderers\<close>

text \<open>
  The text renderer on a whole text: as long as the counters stay safe integers (each
  magnitude, plus the number of headings, is below \<open>2 ^ 53\<close>), the labels are those of
  the specification's steps.
\<close>

lemma spec_advance_bound:
  assumes "\<bar>current (cs k)\<bar> + 1 + n < 2 ^ 53" and "\<bar>reset (cs k)\<bar> + 1 + n < 2 ^ 53"
      and "(0::int) \<le> n"
  shows "\<bar>current (spec_advance L cs k)\<bar> + n < 2 ^ 53 \<and> \<bar>reset (spec_advance L cs k)\<bar> + n < 2 ^ 53"
  using assms by (auto simp: spec_advance_def)

lemma replaceSegments_labels:
  assumes "\<And>k. 1 \<le> k \<Longrightarrow> k \<le> 6 \<Longrightarrow> currentCounts ctx k = Some (cs k)"
      and "\<forall>L \<in> set (headingLevels segs). 1 \<le> L \<and> L \<le> 6"
      and "separator opts = SepString sep"
      and "\<And>k. 1 \<le> k \<Longrightarrow> k \<le> 6 \<Longrightarrow>
             \<bar>current (cs k)\<bar> + int (length (headingLevels segs)) < 2 ^ 53
           \<and> \<bar>reset (cs k)\<bar> + int (length (headingLevels segs)) < 2 ^ 53"
  shows "replaceSegments opts ctx segs =
           Inr (labelText segs (spec_labels sep (scopedTagNames ctx) cs (headingLevels segs)))"
  using assms
proof (induction segs arbitrary: ctx cs)
  case Nil
  show ?case by simp
next
  case (Cons seg segs)
  show ?case
  proof (cases seg)
    case (Plain s)
    have "replaceSegments opts ctx segs =
           Inr (labelText segs (spec_labels sep (scopedTagNames ctx) cs (headingLevels segs)))"
      by (rule Cons.IH[OF Cons.prems(1) _ Cons.prems(3)]) (use Cons.prems(2,4) Plain in auto)
    with Plain show ?thesis by (simp add: andThen_def)
  next
    case (Heading hashes spaces body)
    let ?L = "length hashes"
    let ?ctx' = "ctx\<lparr>currentCounts :=
                      (\<lambda>k. if 1 \<le> k \<and> k \<le> 6 then Some (spec_advance ?L cs k)
                            else currentCounts ctx k)\<rparr>"
    from Cons.prems(2) Heading have L: "1 \<le> ?L" "?L \<le> 6" by auto
    have bound: "\<bar>current (cs k)\<bar> + 1 + int (length (headingLevels segs)) < 2 ^ 53
               \<and> \<bar>reset (cs k)\<bar> + 1 + int (length (headingLevels segs)) < 2 ^ 53"
      if "1 \<le> k" "k \<le> 6" for k
      using Cons.prems(4)[OF that] Heading by simp
    have safe: "\<bar>current (cs ?L)\<bar> < 2 ^ 53"
      using bound[OF L] by simp
    have step: "replacer opts ctx (hashes @ spaces @ body, hashes, body) =
           Inr (?ctx',
                if ?L \<in> scopedTagNames ctx
                then hashes @ '' '' @ spec_label sep ?L (spec_advance ?L cs) @ '' '' @ body
                else hashes @ spaces @ body)"
      by (rule replacer_step[OF Cons.prems(1) L refl Cons.prems(3) safe])
    have rest: "replaceSegments opts ?ctx' segs =
           Inr (labelText segs
                  (spec_labels sep (scopedTagNames ?ctx') (spec_advance ?L cs)
                     (headingLevels segs)))"
    proof (rule Cons.IH[OF _ _ Cons.prems(3)])
      show "\<And>k. 1 \<le> k \<Longrightarrow> k \<le> 6 \<Longrightarrow> currentCounts ?ctx' k = Some (spec_advance ?L cs k)"
        by simp
      show "\<forall>L \<in> set (headingLevels segs). 1 \<le> L \<and> L \<le> 6"
        using Cons.prems(2) Heading by auto
      show "\<bar>current (spec_advance ?L cs k)\<bar> + int (length (headingLevels segs)) < 2 ^ 53
          \<and> \<bar>reset (spec_advance ?L cs k)\<bar> + int (length (headingLevels segs)) < 2 ^ 53"
        if "1 \<le> k" "k \<le> 6" for k
        using bound[OF that] by (intro spec_advance_bound) simp_all
    qed
    show ?thesis
      using step rest Heading by (simp add: andThen_def)
  qed
qed

lemma matchHeading_level:
  "matchHeading s = Some (hashes, spaces, body, rest) \<Longrightarrow> 1 \<le> length hashes \<and> length hashes \<le> 6"
  by (auto simp: matchHeading_def Let_def split: if_splits)

lemma scanHeadings_levels:
  "\<forall>L \<in> set (headingLevels (scanHeadings atLineStart acc s)). 1 \<le> L \<and> L \<le> 6"
proof (induction atLineStart acc s rule: scanHeadings.induct)
  case (1 atLineStart acc s)
  show ?case
  proof (cases "s = []")
    case True
    then show ?thesis by (simp add: scanHeadings.simps)
  next
    case False
    show ?thesis
    proof (cases "if atLineStart then matchHeading s else None")
      case None
      with False 1(1)[OF False None] show ?thesis
        by (subst scanHeadings.simps) simp
    next
      case (Some m)
      obtain hashes spaces body rest where m: "m = (hashes, spaces, body, rest)"
        by (cases m) auto
      from Some m have mh: "matchHeading s = Some (hashes, spaces, body, rest)"
        by (auto split: if_splits)
      from 1(2)[OF False Some[unfolded m] refl refl refl]
      have "\<forall>L \<in> set (headingLevels (scanHeadings (isLineTerminator (last (hashes @ spaces @ body))) [] rest)). 1 \<le> L \<and> L \<le> 6" .
      with False Some m matchHeading_level[OF mh] show ?thesis
        by (subst scanHeadings.simps) simp
    qed
  qed
qed

lemma applyToHeadingList_raises:
  "applyToHeadingList ctx opts (heading # headingList) = Inl TypeError"
  by (simp add: arrowCallThis_def applyCurrentCountThroughBoundContext_def andThen_def)

text \<open>
  Claim C2, evaluated on the code. Whatever the configuration and the separator, the tree
  renderer raises \<open>TypeError\<close> on every list of heading elements that is not empty, at
  its first element, and writes no label: the context given to \<open>call\<close> never reaches the
  arrow function. The text renderer, on a text with the same heading levels, returns the
  labelled text.
\<close>

theorem tree_renderer_raises:
  "applyScopedHeadingCounts lvls opts (Html (heading # headingList)) = Inl TypeError"
  by (simp add: applyScopedHeadingCounts_def applyToHeadingList_raises andThen_def
        del: applyToHeadingList.simps)

theorem tree_renderer_raises_witness:
  "applyScopedHeadingCounts lvlsW optsW (Html nodesW) = Inl TypeError
   \<and> headingLevels (scanHeadings True [] mdW) = map tagName nodesW
   \<and> applyScopedHeadingCounts lvlsW optsW (Markdown mdW)
       = Inr (MarkdownText ''# 3. Intro\<newline>text\<newline>## 3.3. Usage\<newline>### Details'')"
proof -
  have same: "headingLevels (scanHeadings True [] mdW) = map tagName nodesW"
    by code_simp
  have t: "applyScopedHeadingCounts lvlsW optsW (Markdown mdW)
       = Inr (MarkdownText ''# 3. Intro\<newline>text\<newline>## 3.3. Usage\<newline>### Details'')"
    by code_simp
  show ?thesis
    using tree_renderer_raises[of lvlsW optsW "hd nodesW" "tl nodesW"] same t
    by (simp add: nodesW_def)
qed

subsection \<open>Outline numbering from the seed 1, 1\<close>

lemma range6:
  "validateAndGetHeadingRange g (LevelsNumber 6)
     = Inr (map (\<lambda>i. (i, \<lparr>inScope = True, counter = None\<rparr>)) [1, 2, 3, 4, 5, 6])"
  by (simp add: validateAndGetHeadingRange_def andThen_def isInRange_def upt_rec)

lemma seed11:
  "startingValuesOf g [''1'', ''1'']
     = Inr (map (\<lambda>i. (i, ''1'')) [1, 2, 3, 4, 5, 6])"
  by (simp add: startingValuesOf_def andThen_def isAllNumeric_def isDigit_def Let_def upt_rec
        nth_append)

lemma parseInt_1: "parseInt (Some ''1'') = Finite 1"
  by (simp add: parseInt_def isSpace_def isDigit_def digitsValue_def digitValue_def Let_def
        toDouble_def)

lemma seedConfig_counts:
  "1 \<le> k \<Longrightarrow> k \<le> 6 \<Longrightarrow>
   currentCounts (createCountContextObjects seedConfig) k = Some \<lparr>reset = 0, current = 0\<rparr>"
proof -
  assume "1 \<le> k" "k \<le> 6"
  then have "k \<in> {1, 2, 3, 4, 5, 6}" by auto
  then show ?thesis
    by (auto simp: seedConfig_def headingConfiguration_def createCountContextObjects_def parseInt_1
          toDouble_def)
qed

lemma seedConfig_scope: "scopedTagNames (createCountContextObjects seedConfig) = {1, 2, 3, 4, 5, 6}"
proof -
  have "map fst (filter (\<lambda>(key, entry). inScope entry) seedConfig) = [1, 2, 3, 4, 5, 6]"
    by (simp add: seedConfig_def headingConfiguration_def)
  then have "set (map fst (filter (\<lambda>(key, entry). inScope entry) seedConfig)) = set [1, 2, 3, 4, 5, 6]"
    by (rule arg_cong)
  then show ?thesis
    unfolding createCountContextObjects_def Let_def by (simp del: set_map set_filter)
qed

lemma labels_12212:
  "spec_labels ''-'' {1, 2, 3, 4, 5, 6} (\<lambda>k. \<lparr>reset = 0, current = 0\<rparr>) [1, 2, 2, 1, 2]
     = [Some ''1-'', Some ''1-1-'', Some ''1-2-'', Some ''2-'', Some ''2-1-'']"
  by (simp add: spec_label_def spec_advance_def numberToString_def decimalString.simps upt_rec)

text \<open>
  Claim C4. With the seed tokens \<open>1\<close>, \<open>1\<close> (every level then starts with
  \<open>current = reset = 0\<close>, the token value minus one), the level setting 6 and the
  separator \<open>-\<close>, a text whose headings have the levels 1, 2, 2, 1, 2 is returned by
  the text renderer with the labels \<open>1-\<close>, \<open>1-1-\<close>, \<open>1-2-\<close>, \<open>2-\<close>, \<open>2-1-\<close> written
  into these headings, in this order.
\<close>

theorem text_renderer_outline:
  assumes "headingLevels (scanHeadings True [] markdown) = [1, 2, 2, 1, 2]"
      and "separator opts = SepString ''-''"
  shows "\<exists>headingRanges startingHeadingValues.
           validateAndGetHeadingRange g (LevelsNumber 6) = Inr headingRanges
         \<and> startingValuesOf g [''1'', ''1''] = Inr startingHeadingValues
         \<and> (\<forall>k \<in> {1..6}.
               currentCounts (createCountContextObjects
                   (headingConfiguration headingRanges startingHeadingValues)) k
                 = Some \<lparr>reset = 0, current = 0\<rparr>)
         \<and> parseMarkdown markdown opts (headingConfiguration headingRanges startingHeadingValues)
             = Inr (labelText (scanHeadings True [] markdown)
                      [Some ''1-'', Some ''1-1-'', Some ''1-2-'', Some ''2-'', Some ''2-1-''])"
proof -
  have lv: "\<forall>L \<in> set (headingLevels (scanHeadings True [] markdown)). 1 \<le> L \<and> L \<le> 6"
    by (rule scanHeadings_levels)
  have "parseMarkdown markdown opts seedConfig
          = Inr (labelText (scanHeadings True [] markdown)
                   (spec_labels ''-'' (scopedTagNames (createCountContextObjects seedConfig))
                      (\<lambda>k. \<lparr>reset = 0, current = 0\<rparr>) (headingLevels (scanHeadings True [] markdown))))"
    unfolding parseMarkdown_def
    by (rule replaceSegments_labels[OF seedConfig_counts lv assms(2)]) (simp_all add: assms(1))
  then have out: "parseMarkdown markdown opts seedConfig
          = Inr (labelText (scanHeadings True [] markdown)
                   [Some ''1-'', Some ''1-1-'', Some ''1-2-'', Some ''2-'', Some ''2-1-''])"
    by (simp only: assms seedConfig_scope labels_12212)
  have cnt: "\<forall>k \<in> {1..6}. currentCounts (createCountContextObjects seedConfig) k
                 = Some \<lparr>reset = 0, current = 0\<rparr>"
    by (simp add: seedConfig_counts)
  show ?thesis
    using range6[of g] seed11[of g] out cnt unfolding seedConfig_def by blast
qed

theorem text_renderer_outline_witness:
  "\<exists>headingRanges startingHeadingValues.
     validateAndGetHeadingRange None (LevelsNumber 6) = Inr headingRanges
   \<and> startingValuesOf None [''1'', ''1''] = Inr startingHeadingValues
   \<and> parseMarkdown mdOutline optsDash (headingConfiguration headingRanges startingHeadingValues)
       = Inr ''# 1- a\<newline>## 1-1- b\<newline>## 1-2- c\<newline># 2- d\<newline>## 2-1- e''"
proof -
  have lv: "headingLevels (scanHeadings True [] mdOutline) = [1, 2, 2, 1, 2]"
    by code_simp
  have sep: "separator optsDash = SepString ''-''"
    by (simp add: optsDash_def)
  have out: "labelText (scanHeadings True [] mdOutline)
               [Some ''1-'', Some ''1-1-'', Some ''1-2-'', Some ''2-'', Some ''2-1-'']
             = ''# 1- a\<newline>## 1-1- b\<newline>## 1-2- c\<newline># 2- d\<newline>## 2-1- e''"
    by code_simp
  show ?thesis
    using text_renderer_outline[OF lv sep, of None] unfolding out by blast
qed

subsection \<open>The level range\<close>

lemma names_1_6: "[Suc 0..<7] = [Suc 0, 2, 3, 4, 5, 6]"
  by (simp add: upt_rec)

text \<open>
  Claim C8. For a valid level setting (object form with \<open>1 \<le> start \<le> finish \<le> 6\<close>) the
  resolver returns the table with an entry for each of the levels 1 to 6, in which level
  \<open>L\<close> is in scope exactly when \<open>start \<le> L \<le> finish\<close>; and a single number \<open>finish\<close>
  from 1 to 6 gives the result of the object with \<open>start = 1\<close> and that \<open>finish\<close>.
\<close>

theorem heading_range_table:
  assumes "1 \<le> start" and "start \<le> finish" and "finish \<le> 6"
  shows "validateAndGetHeadingRange g (LevelsObject (Number start) (Number finish))
           = Inr (map (\<lambda>L. (L, \<lparr>inScope = (start \<le> real L \<and> real L \<le> finish), counter = None\<rparr>))
                      [1, 2, 3, 4, 5, 6])
       \<and> validateAndGetHeadingRange g (LevelsNumber finish)
           = validateAndGetHeadingRange g (LevelsObject (Number 1) (Number finish))"
  using assms
  by (simp add: validateAndGetHeadingRange_def andThen_def isInRange_def isNumber_def names_1_6)

theorem heading_range_table_witness:
  "validateAndGetHeadingRange None (LevelsObject (Number 2) (Number 3))
     = Inr [(1, \<lparr>inScope = False, counter = None\<rparr>), (2, \<lparr>inScope = True, counter = None\<rparr>),
            (3, \<lparr>inScope = True, counter = None\<rparr>), (4, \<lparr>inScope = False, counter = None\<rparr>),
            (5, \<lparr>inScope = False, counter = None\<rparr>), (6, \<lparr>inScope = False, counter = None\<rparr>)]
   \<and> validateAndGetHeadingRange None (LevelsNumber 3)
       = validateAndGetHeadingRange None (LevelsObject (Number 1) (Number 3))"
  using heading_range_table[of 2 3 None] by simp

text \<open>
  Claim C7, evaluated on the code, for an object with the numeric bounds \<open>start\<close> and
  \<open>finish\<close>. As the file is loaded (no global \<open>options\<close>), every such object that is
  inverted or has a bound outside 1 .. 6 makes the resolver raise \<open>ReferenceError\<close>,
  whatever \<open>debug\<close> is: the error of neither kind is reached. With a global \<open>options\<close>
  whose \<open>debug\<close> is true, an inverted object fails with the error of the message
  \<open>invalidHeadingLevelOrder\<close>, also when a bound is outside 1 .. 6; an object that is
  not inverted and has a bound outside 1 .. 6 fails with an error that has no message
  (\<open>errorMessage.headingLevelRange\<close> is \<open>undefined\<close>). With a global \<open>options\<close>
  whose \<open>debug\<close> is false nothing fails. A valid object fails in no case.
\<close>

theorem heading_range_error_kinds:
  "(finish < start \<or> start < 1 \<or> 6 < start \<or> finish < 1 \<or> 6 < finish \<longrightarrow>
      validateAndGetHeadingRange None (LevelsObject (Number start) (Number finish))
        = Inl ReferenceError)
   \<and> (finish < start \<longrightarrow>
      validateAndGetHeadingRange (Some True) (LevelsObject (Number start) (Number finish))
        = Inl (Error (Some InvalidHeadingLevelOrder)))
   \<and> (start \<le> finish \<and> (start < 1 \<or> 6 < start \<or> finish < 1 \<or> 6 < finish) \<longrightarrow>
      validateAndGetHeadingRange (Some True) (LevelsObject (Number start) (Number finish))
        = Inl (Error None))
   \<and> (1 \<le> start \<and> start \<le> finish \<and> finish \<le> 6 \<longrightarrow>
      \<not> isl (validateAndGetHeadingRange None (LevelsObject (Number start) (Number finish)))
      \<and> \<not> isl (validateAndGetHeadingRange (Some True) (LevelsObject (Number start) (Number finish))))
   \<and> \<not> isl (validateAndGetHeadingRange (Some False) (LevelsObject (Number start) (Number finish)))"
  by (auto simp: validateAndGetHeadingRange_def andThen_def isInRange_def isNumber_def
        showErrorMessageGlobal_def showErrorMessage_def)

theorem heading_range_error_kinds_witness:
  "validateAndGetHeadingRange None (LevelsObject (Number 3) (Number 2)) = Inl ReferenceError
   \<and> validateAndGetHeadingRange None (LevelsObject (Number 0) (Number 2)) = Inl ReferenceError
   \<and> validateAndGetHeadingRange (Some True) (LevelsObject (Number 3) (Number 2))
       = Inl (Error (Some InvalidHeadingLevelOrder))
   \<and> validateAndGetHeadingRange (Some True) (LevelsObject (Number 7) (Number 2))
       = Inl (Error (Some InvalidHeadingLevelOrder))
   \<and> validateAndGetHeadingRange (Some True) (LevelsObject (Number 0) (Number 2)) = Inl (Error None)
   \<and> \<not> isl (validateAndGetHeadingRange (Some False) (LevelsObject (Number 3) (Number 2)))
   \<and> \<not> isl (validateAndGetHeadingRange None (LevelsObject (Number 2) (Number 3)))"
  using heading_range_error_kinds[of 2 3] heading_range_error_kinds[of 2 0]
    heading_range_error_kinds[of 2 7] heading_range_error_kinds[of 3 2]
  by simp

subsection \<open>The signifier's tokens\<close>

lemma letter_not_digit: "isLetter c \<Longrightarrow> \<not> isDigit c \<and> \<not> isSpace c \<and> c \<noteq> CHR ''-'' \<and> c \<noteq> CHR ''+''"
  by (auto simp: isLetter_def isDigit_def isSpace_def)

lemma parseInt_letters: "isAllAlphabetic tok \<Longrightarrow> parseInt (Some tok) = NotANumber"
proof -
  assume a: "isAllAlphabetic tok"
  then obtain c cs where tok: "tok = c # cs" and c: "isLetter c"
    by (cases tok) (auto simp: isAllAlphabetic_def)
  from letter_not_digit[OF c] show ?thesis
    by (simp add: parseInt_def tok Let_def)
qed

lemma alphabetic_not_numeric: "isAllAlphabetic tok \<Longrightarrow> \<not> isAllNumeric tok"
  by (cases tok) (auto simp: isAllAlphabetic_def isAllNumeric_def dest: letter_not_digit)

lemma isAllAlphabetic_A: "isAllAlphabetic ''A''"
  by (simp add: isAllAlphabetic_def isLetter_def)

lemma map_of_starting:
  "map_of (map (\<lambda>i. (i + 1, padded ! i)) [0..<6]) k
     = (if 1 \<le> k \<and> k \<le> 6 then Some (padded ! (k - 1)) else None)"
proof -
  have "[0..<6] = [0, 1, 2, 3, 4, 5::nat]" by (simp add: upt_rec)
  then show ?thesis by auto
qed

lemma context_of_zero_seed:
  assumes "\<And>key. (case parseInt (map_of sv key) of
                    Finite v \<Rightarrow> toDouble (v - 1) | NotANumber \<Rightarrow> 0 | Infinite \<Rightarrow> 0) = 0"
  shows "createCountContextObjects (headingConfiguration hr sv)
           = \<lparr>currentCounts = map_of (map (\<lambda>(key, r). (key, \<lparr>reset = 0, current = 0\<rparr>)) hr),
              scopedTagNames = set (map fst (filter (\<lambda>(key, r). inScope r) hr))\<rparr>"
proof -
  have cc: "map (\<lambda>(key, entry).
                  let n = (case parseInt (counter entry) of
                             Finite v \<Rightarrow> toDouble (v - 1) | NotANumber \<Rightarrow> 0 | Infinite \<Rightarrow> 0)
                  in (key, \<lparr>reset = n, current = n\<rparr>))
              (headingConfiguration hr sv)
            = map (\<lambda>(key, r). (key, \<lparr>reset = 0, current = 0\<rparr>)) hr"
    using assms by (simp add: headingConfiguration_def Let_def comp_def case_prod_unfold)
  have sc: "map fst (filter (\<lambda>(key, entry). inScope entry) (headingConfiguration hr sv))
            = map fst (filter (\<lambda>(key, r). inScope r) hr)"
    by (induction hr) (auto simp: headingConfiguration_def)
  show ?thesis
    unfolding createCountContextObjects_def by (simp only: Let_def[of hr] Let_def[of "headingConfiguration hr sv"] cc sc)
qed

lemma parseInt_undefined: "parseInt None = NotANumber"
  by (simp add: parseInt_def isSpace_def isDigit_def Let_def)

lemma numeric_not_alphabetic: "isAllNumeric tok \<Longrightarrow> \<not> isAllAlphabetic tok"
  using alphabetic_not_numeric by blast

text \<open>
  Claim C5, evaluated on the code. For every sequence with an all-digit token and an
  all-letter token: with reporting on, the error raised carries the message
  \<open>invalidHeadingLevels\<close>, the one that the level resolver raises for a level setting
  of a wrong type, so it is no kind of its own; the message \<open>misconfiguredSignifier\<close>
  is never used for it. Without a global \<open>options\<close> the error is a \<open>ReferenceError\<close>,
  and with reporting off nothing fails.
\<close>

theorem mixed_tokens_error_kind:
  assumes "x \<in> set elements" and "isAllNumeric x"
      and "y \<in> set elements" and "isAllAlphabetic y"
  shows "startingValuesOf (Some True) elements = Inl (Error (Some InvalidHeadingLevels))
       \<and> validateAndGetHeadingRange (Some True) LevelsOther = Inl (Error (Some InvalidHeadingLevels))
       \<and> startingValuesOf None elements = Inl ReferenceError
       \<and> \<not> isl (startingValuesOf (Some False) elements)"
proof -
  from assms(1,2) have "\<not> list_all isAllAlphabetic elements"
    by (auto simp: list_all_iff dest: numeric_not_alphabetic)
  moreover from assms(3,4) have "\<not> list_all isAllNumeric elements"
    by (auto simp: list_all_iff dest: alphabetic_not_numeric)
  ultimately show ?thesis
    by (simp add: startingValuesOf_def validateAndGetHeadingRange_def andThen_def Let_def
          showErrorMessageGlobal_def showErrorMessage_def)
qed

theorem mixed_tokens_error_kind_witness:
  "getStartingValues (Some True) ''1,A'' (SepString '','') = Inl (Error (Some InvalidHeadingLevels))
   \<and> startingValuesOf (Some True) [''1'', ''A''] = Inl (Error (Some InvalidHeadingLevels))
   \<and> validateAndGetHeadingRange (Some True) LevelsOther = Inl (Error (Some InvalidHeadingLevels))"
proof -
  have n: "isAllNumeric ''1''" by (simp add: isAllNumeric_def isDigit_def)
  have a: "isAllAlphabetic ''A''" by (simp add: isAllAlphabetic_def isLetter_def)
  have s: "map trim (splitBy ''1,A'' (SepString '','')) = [''1'', ''A'']" by code_simp
  show ?thesis
    using mixed_tokens_error_kind[of "''1''" "[''1'', ''A'']" "''A''", OF _ n _ a] s
    by (simp add: getStartingValues_def)
qed

lemma paddedTokens_map_of:
  "map_of (paddedTokens elements filler) k
     = (if 1 \<le> k \<and> k \<le> 6
        then Some ((elements @ replicate (6 - length elements) filler) ! (k - 1)) else None)"
  unfolding paddedTokens_def by (rule map_of_starting)

lemma paddedTokens_A: "paddedTokens [''A''] ''A'' = map (\<lambda>i. (i, ''A'')) [1, 2, 3, 4, 5, 6]"
  by (simp add: paddedTokens_def upt_rec nth_append)

lemma alphabetic_labels:
  "parseMarkdown ''# Intro\<newline>## Usage'' optsDash alphaConfig = Inr ''# 1- Intro\<newline>## 1-1- Usage''"
  by code_simp

text \<open>
  Claim C6, evaluated on the code. For a signifier whose tokens are all alphabetic,
  \<open>getStartingValues\<close> accepts the tokens and gives each level its token, a short list
  padded with the letter \<open>A\<close>; these letters are the \<open>counter\<close> of the configuration.
  \<open>createCountContextObjects\<close> then reads each of them with \<open>parseInt\<close>, which gives
  \<open>NaN\<close>, and starts every level with the numbers \<open>current = reset = 0\<close>: the counter
  state is the one that the numeric seed of six tokens \<open>1\<close> gives, and no letter is
  counted.
\<close>

theorem alphabetic_seed_counts:
  assumes "elements \<noteq> []" and "list_all isAllAlphabetic elements"
  shows "startingValuesOf g elements = Inr (paddedTokens elements ''A'')
       \<and> (\<forall>(key, tok) \<in> set (paddedTokens elements ''A'').
             isAllAlphabetic tok \<and> parseInt (Some tok) = NotANumber)
       \<and> (\<forall>(key, r) \<in> set (headingConfiguration headingRanges (paddedTokens elements ''A'')).
             counter r = map_of (paddedTokens elements ''A'') key
           \<and> parseInt (counter r) = NotANumber)
       \<and> createCountContextObjects (headingConfiguration headingRanges (paddedTokens elements ''A''))
             = \<lparr>currentCounts = map_of (map (\<lambda>(key, r). (key, \<lparr>reset = 0, current = 0\<rparr>)) headingRanges),
                scopedTagNames = set (map fst (filter (\<lambda>(key, r). inScope r) headingRanges))\<rparr>
       \<and> createCountContextObjects (headingConfiguration headingRanges (paddedTokens elements ''A''))
             = createCountContextObjects
                 (headingConfiguration headingRanges (map (\<lambda>i. (i, ''1'')) [1, 2, 3, 4, 5, 6]))"
proof -
  let ?padded = "elements @ replicate (6 - length elements) ''A''"
  let ?sv = "paddedTokens elements ''A''"
  from assms obtain e es where "elements = e # es" "isAllAlphabetic e"
    by (cases elements) auto
  then have notnum: "\<not> list_all isAllNumeric elements"
    by (auto dest: alphabetic_not_numeric)
  have sv: "startingValuesOf g elements = Inr ?sv"
    using notnum assms(2) by (simp add: startingValuesOf_def andThen_def Let_def paddedTokens_def)
  have alpha: "isAllAlphabetic (?padded ! i)" if "i < 6" for i
  proof (cases "i < length elements")
    case True
    with assms(2) show ?thesis by (simp add: nth_append list_all_length)
  next
    case False
    with that show ?thesis by (simp add: nth_append isAllAlphabetic_A)
  qed
  have toks: "\<forall>(key, tok) \<in> set ?sv. isAllAlphabetic tok \<and> parseInt (Some tok) = NotANumber"
    using alpha by (auto simp: paddedTokens_def parseInt_letters)
  have nan: "parseInt (map_of ?sv key) = NotANumber" for key
    unfolding paddedTokens_map_of using alpha[of "key - 1"]
    by (auto simp: parseInt_undefined parseInt_letters)
  have ones: "(case parseInt (map_of (map (\<lambda>i. (i, ''1'')) [1, 2, 3, 4, 5, 6]) key) of
                 Finite v \<Rightarrow> toDouble (v - 1) | NotANumber \<Rightarrow> 0 | Infinite \<Rightarrow> 0) = 0" for key :: nat
    by (simp add: parseInt_1 parseInt_undefined toDouble_def)
  have c1: "\<forall>(key, r) \<in> set (headingConfiguration headingRanges ?sv).
              counter r = map_of ?sv key \<and> parseInt (counter r) = NotANumber"
    using nan by (auto simp: headingConfiguration_def)
  have c2: "createCountContextObjects (headingConfiguration headingRanges ?sv)
             = \<lparr>currentCounts = map_of (map (\<lambda>(key, r). (key, \<lparr>reset = 0, current = 0\<rparr>)) headingRanges),
                scopedTagNames = set (map fst (filter (\<lambda>(key, r). inScope r) headingRanges))\<rparr>"
    by (rule context_of_zero_seed) (use nan in simp)
  have c3: "createCountContextObjects
                 (headingConfiguration headingRanges (map (\<lambda>i. (i, ''1'')) [1, 2, 3, 4, 5, 6]))
             = \<lparr>currentCounts = map_of (map (\<lambda>(key, r). (key, \<lparr>reset = 0, current = 0\<rparr>)) headingRanges),
                scopedTagNames = set (map fst (filter (\<lambda>(key, r). inScope r) headingRanges))\<rparr>"
    by (rule context_of_zero_seed) (rule ones)
  from sv toks c1 c2 c3 show ?thesis by simp
qed

theorem alphabetic_seed_counts_witness:
  "startingValuesOf None [''A'']
     = Inr [(1, ''A''), (2, ''A''), (3, ''A''), (4, ''A''), (5, ''A''), (6, ''A'')]
   \<and> createCountContextObjects alphaConfig = createCountContextObjects seedConfig
   \<and> currentCounts (createCountContextObjects alphaConfig) 1 = Some \<lparr>reset = 0, current = 0\<rparr>
   \<and> parseMarkdown ''# Intro\<newline>## Usage'' optsDash alphaConfig = Inr ''# 1- Intro\<newline>## 1-1- Usage''"
proof -
  have ne: "[''A''] \<noteq> []" by simp
  have al: "list_all isAllAlphabetic [''A'']"
    by (simp add: isAllAlphabetic_def isLetter_def)
  have one: "currentCounts (createCountContextObjects seedConfig) 1 = Some \<lparr>reset = 0, current = 0\<rparr>"
    by (rule seedConfig_counts) simp_all
  note t = alphabetic_seed_counts[OF ne al, of None
      "map (\<lambda>i. (i, \<lparr>inScope = True, counter = None\<rparr>)) [1, 2, 3, 4, 5, 6]",
      unfolded paddedTokens_A, folded alphaConfig_def seedConfig_def]
  from t have sv: "startingValuesOf None [''A''] = Inr (map (\<lambda>i. (i, ''A'')) [1, 2, 3, 4, 5, 6])"
    by (rule conjunct1)
  from t have eq: "createCountContextObjects alphaConfig = createCountContextObjects seedConfig"
    by (elim conjE)
  from sv have "startingValuesOf None [''A'']
     = Inr [(1, ''A''), (2, ''A''), (3, ''A''), (4, ''A''), (5, ''A''), (6, ''A'')]"
    by simp
  moreover from eq one
  have "currentCounts (createCountContextObjects alphaConfig) 1 = Some \<lparr>reset = 0, current = 0\<rparr>"
    by simp
  ultimately show ?thesis
    using eq alphabetic_labels by (intro conjI)
qed

subsection \<open>The signifier's line\<close>

lemma splitAcc_no_sep: "c \<notin> set a \<Longrightarrow> splitAcc [c] acc a = [acc @ a]"
proof (induction a arbitrary: acc)
  case Nil
  show ?case by (simp add: splitAcc.simps)
next
  case (Cons x xs)
  then show ?case by (subst splitAcc.simps) auto
qed

lemma splitAcc_first_sep:
  "c \<notin> set a \<Longrightarrow> splitAcc [c] acc (a @ c # r) = (acc @ a) # splitAcc [c] [] r"
proof (induction a arbitrary: acc)
  case Nil
  show ?case by (subst splitAcc.simps) simp
next
  case (Cons x xs)
  then show ?case by (subst splitAcc.simps) auto
qed

lemma splitAcc_not_Nil: "splitAcc sep acc s \<noteq> []"
proof (induction sep acc s rule: splitAcc.induct)
  case (1 sep acc s)
  then show ?case by (subst splitAcc.simps) auto
qed

lemma join_Cons: "ys \<noteq> [] \<Longrightarrow> join sep (x # ys) = x @ sep @ join sep ys"
  by (cases ys) simp_all

lemma join_splitAcc: "join [c] (splitAcc [c] acc s) = acc @ s"
proof (induction s arbitrary: acc rule: length_induct)
  case (1 s)
  show ?case
  proof (cases "c \<in> set s")
    case False
    then show ?thesis by (simp add: splitAcc_no_sep)
  next
    case True
    then obtain a r where s: "s = a @ c # r" and a: "c \<notin> set a"
      by (auto dest: split_list_first)
    have len: "length r < length s" by (simp add: s)
    have "join [c] (splitAcc [c] [] r) = r"
      using 1[rule_format, OF len, of "[]"] by simp
    then show ?thesis
      by (simp add: s splitAcc_first_sep[OF a] join_Cons[OF splitAcc_not_Nil])
  qed
qed

lemma cleaned_text:
  "join ''\<newline>'' (drop 1 (splitString markdown ''\<newline>''))
     = drop 1 (dropWhile (\<lambda>x. x \<noteq> CHR ''\<newline>'') markdown)"
proof (cases "CHR ''\<newline>'' \<in> set markdown")
  case False
  then have dw: "dropWhile (\<lambda>x. x \<noteq> CHR ''\<newline>'') markdown = []" by auto
  show ?thesis
    unfolding dw by (simp add: splitString_def splitAcc_no_sep[OF False])
next
  case True
  then obtain a r where s: "markdown = a @ CHR ''\<newline>'' # r" and a: "CHR ''\<newline>'' \<notin> set a"
    by (auto dest: split_list_first)
  have d: "dropWhile (\<lambda>x. x \<noteq> CHR ''\<newline>'') markdown = CHR ''\<newline>'' # r"
    using a by (auto simp: s dropWhile_append3)
  have "splitString markdown ''\<newline>'' = a # splitAcc ''\<newline>'' [] r"
    unfolding splitString_def by (simp add: s splitAcc_first_sep[OF a])
  then show ?thesis
    using join_splitAcc[of "CHR ''\<newline>''" "[]" r] by (simp add: d)
qed

lemma trim_rtrim: "trim s = rtrim (dropWhile isSpace s)"
  by (simp add: trim_def rtrim_def)

lemma rtrim_append_nonspace:
  assumes "P \<noteq> []" and "\<not> isSpace (last P)"
  shows "rtrim (P @ x) = P @ rtrim x"
proof (cases "\<forall>c \<in> set x. isSpace c")
  case True
  have "dropWhile isSpace (rev x @ rev P) = dropWhile isSpace (rev P)"
    by (rule dropWhile_append2) (use True in auto)
  moreover have "dropWhile isSpace (rev P) = rev P"
    using assms by (cases "rev P") (auto simp: last_rev[symmetric] hd_rev)
  moreover have "dropWhile isSpace (rev x) = []"
    using True by simp
  ultimately show ?thesis by (simp add: rtrim_def)
next
  case False
  then obtain c where "c \<in> set (rev x)" "\<not> isSpace c" by auto
  then have "dropWhile isSpace (rev x @ rev P) = dropWhile isSpace (rev x) @ rev P"
    by (simp add: dropWhile_append1)
  then show ?thesis by (simp add: rtrim_def)
qed

lemma rtrim_prefix: "\<exists>sp. x = rtrim x @ sp \<and> (\<forall>c \<in> set sp. isSpace c)"
proof -
  have "rev x = takeWhile isSpace (rev x) @ dropWhile isSpace (rev x)" by simp
  then have "x = rev (dropWhile isSpace (rev x)) @ rev (takeWhile isSpace (rev x))"
    by (metis rev_append rev_rev_ident)
  moreover have "\<forall>c \<in> set (rev (takeWhile isSpace (rev x))). isSpace c"
    by (auto dest: set_takeWhileD)
  ultimately show ?thesis unfolding rtrim_def by blast
qed

lemma signifier_not_space: "isSignifierChar c \<Longrightarrow> \<not> isSpace c \<and> c \<noteq> CHR ''\<newline>''"
  by (auto simp: isSignifierChar_def isDigit_def isLetter_def isSpace_def)

lemma opening_at_length: "length ''@autoHeader:'' = 12"
  by simp

lemma opening_comment_length: "length ''<!-- autoHeader:'' = 16"
  by simp

lemma autoHeaderMatch_form:
  "autoHeaderMatch s = Some grp \<longleftrightarrow>
     (\<exists>a r. isOpening a \<and> s = a @ grp @ r \<and> grp \<noteq> [] \<and> (\<forall>c \<in> set grp. isSignifierChar c)
            \<and> (r = [] \<or> \<not> isSignifierChar (hd r)))"
  (is "?L \<longleftrightarrow> ?R")
proof
  assume ?L
  then have "(take 12 s = ''@autoHeader:'' \<and> grp = takeWhile isSignifierChar (drop 12 s)
               \<or> take 16 s = ''<!-- autoHeader:'' \<and> grp = takeWhile isSignifierChar (drop 16 s))
             \<and> grp \<noteq> []"
    by (auto simp: autoHeaderMatch_def Let_def split: if_splits option.splits)
  then have "\<exists>a. isOpening a \<and> take (length a) s = a
                \<and> grp = takeWhile isSignifierChar (drop (length a) s) \<and> grp \<noteq> []"
  proof (elim conjE disjE)
    assume h: "take 12 s = ''@autoHeader:''" "grp = takeWhile isSignifierChar (drop 12 s)"
      "grp \<noteq> []"
    have "isOpening ''@autoHeader:''" by (simp add: isOpening_def)
    moreover have "take (length ''@autoHeader:'') s = ''@autoHeader:''"
      unfolding opening_at_length by (rule h(1))
    moreover have "grp = takeWhile isSignifierChar (drop (length ''@autoHeader:'') s)"
      unfolding opening_at_length by (rule h(2))
    ultimately show ?thesis using h(3) by blast
  next
    assume h: "take 16 s = ''<!-- autoHeader:''" "grp = takeWhile isSignifierChar (drop 16 s)"
      "grp \<noteq> []"
    have "isOpening ''<!-- autoHeader:''" by (simp add: isOpening_def)
    moreover have "take (length ''<!-- autoHeader:'') s = ''<!-- autoHeader:''"
      unfolding opening_comment_length by (rule h(1))
    moreover have "grp = takeWhile isSignifierChar (drop (length ''<!-- autoHeader:'') s)"
      unfolding opening_comment_length by (rule h(2))
    ultimately show ?thesis using h(3) by blast
  qed
  then obtain a where a: "isOpening a" "take (length a) s = a"
      and g: "grp = takeWhile isSignifierChar (drop (length a) s)" "grp \<noteq> []"
    by blast
  let ?r = "dropWhile isSignifierChar (drop (length a) s)"
  have "s = a @ grp @ ?r"
    using a(2) g(1) by (metis append_take_drop_id takeWhile_dropWhile_id)
  moreover have "\<forall>c \<in> set grp. isSignifierChar c"
    unfolding g(1) by (auto dest: set_takeWhileD)
  moreover have "?r = [] \<or> \<not> isSignifierChar (hd ?r)"
    by (metis hd_dropWhile)
  ultimately show ?R using a(1) g(2) by blast
next
  assume ?R
  then obtain a r where a: "isOpening a" and s: "s = a @ grp @ r" and g: "grp \<noteq> []"
      "\<forall>c \<in> set grp. isSignifierChar c" and r: "r = [] \<or> \<not> isSignifierChar (hd r)"
    by blast
  have tw: "takeWhile isSignifierChar (grp @ r) = grp"
    using g(2) r by (cases r) (auto simp: takeWhile_append2 takeWhile_tail)
  from a show ?L
    unfolding isOpening_def
  proof
    assume "a = ''@autoHeader:''"
    then show ?thesis using tw g(1) by (simp add: autoHeaderMatch_def s Let_def)
  next
    assume "a = ''<!-- autoHeader:''"
    then show ?thesis using tw g(1) by (simp add: autoHeaderMatch_def s Let_def)
  qed
qed

lemma isOpening_chars: "isOpening a \<Longrightarrow> a \<noteq> [] \<and> \<not> isSpace (hd a) \<and> CHR ''\<newline>'' \<notin> set a"
  by (auto simp: isOpening_def isSpace_def)

lemma hd_prefix_of: "x = y @ z \<Longrightarrow> y \<noteq> [] \<Longrightarrow> hd y = hd x"
  by simp

lemma first_line_has_signifier:
  assumes m: "autoHeaderMatch (trim markdown) = Some grp"
      and nl: "CHR ''\<newline>'' \<notin> set (takeWhile isSpace markdown)"
  shows "autoHeaderMatch (trim (firstLine markdown)) = Some grp"
proof -
  let ?ws = "takeWhile isSpace markdown"
  let ?body = "dropWhile isSpace markdown"
  let ?notnl = "\<lambda>c. c \<noteq> CHR ''\<newline>''"
  from m obtain a r where a: "isOpening a" and tb: "rtrim ?body = a @ grp @ r"
      and g: "grp \<noteq> []" "\<forall>c \<in> set grp. isSignifierChar c"
      and r: "r = [] \<or> \<not> isSignifierChar (hd r)"
    unfolding trim_rtrim autoHeaderMatch_form by blast
  obtain sp where body: "?body = rtrim ?body @ sp" and sp: "\<forall>c \<in> set sp. isSpace c"
    using rtrim_prefix[of ?body] by blast
  let ?P = "a @ grp"
  let ?x = "takeWhile ?notnl (r @ sp)"
  have P_ne: "?P \<noteq> []" using g(1) by simp
  have P_last: "\<not> isSpace (last ?P)"
    using g by (simp add: signifier_not_space)
  have P_hd: "\<not> isSpace (hd ?P)"
    using isOpening_chars[OF a] by simp
  have P_nl: "\<forall>c \<in> set ?P. ?notnl c"
    using isOpening_chars[OF a] g(2) signifier_not_space by auto
  have ws_nl: "\<forall>c \<in> set ?ws. ?notnl c"
    using nl by auto
  have ws_sp: "\<forall>c \<in> set ?ws. isSpace c"
    by (auto dest: set_takeWhileD)
  have md: "markdown = ?ws @ ?P @ (r @ sp)"
    using body tb by (metis append_assoc takeWhile_dropWhile_id)
  have "firstLine markdown = takeWhile ?notnl (?ws @ ?P @ (r @ sp))"
    unfolding firstLine_def using md by simp
  also have "\<dots> = ?ws @ takeWhile ?notnl (?P @ (r @ sp))"
    by (rule takeWhile_append2) (use ws_nl in auto)
  also have "takeWhile ?notnl (?P @ (r @ sp)) = ?P @ ?x"
    by (rule takeWhile_append2) (use P_nl in auto)
  finally have fl: "firstLine markdown = ?ws @ ?P @ ?x" .
  have "dropWhile isSpace (firstLine markdown) = dropWhile isSpace (?P @ ?x)"
    unfolding fl by (rule dropWhile_append2) (use ws_sp in auto)
  also have "\<dots> = ?P @ ?x"
    using P_ne P_hd by (cases ?P) auto
  finally have "trim (firstLine markdown) = rtrim (?P @ ?x)"
    by (simp add: trim_rtrim)
  then have tf: "trim (firstLine markdown) = a @ grp @ rtrim ?x"
    using rtrim_append_nonspace[OF P_ne P_last, of ?x] by simp
  have nxt: "rtrim ?x = [] \<or> \<not> isSignifierChar (hd (rtrim ?x))"
  proof (cases "rtrim ?x = []")
    case True
    then show ?thesis by simp
  next
    case False
    obtain sp' where x: "?x = rtrim ?x @ sp'" using rtrim_prefix[of ?x] by blast
    have h1: "hd (rtrim ?x) = hd ?x"
      using hd_prefix_of[OF x False] .
    from False x have xne: "?x \<noteq> []" by auto
    have "r @ sp = ?x @ dropWhile ?notnl (r @ sp)" by simp
    then have h2: "hd ?x = hd (r @ sp)"
      using hd_prefix_of[OF _ xne] by metis
    from xne have rsp: "r @ sp \<noteq> []" by auto
    have "\<not> isSignifierChar (hd (r @ sp))"
    proof (cases "r = []")
      case True
      with rsp sp have "isSpace (hd (r @ sp))" by (cases sp) auto
      then show ?thesis using signifier_not_space by blast
    next
      case False
      with r show ?thesis by simp
    qed
    with h1 h2 show ?thesis by simp
  qed
  show ?thesis
    unfolding tf autoHeaderMatch_form using a g nxt by blast
qed

lemma signifierTry_accepts:
  "signifierTry g defaults opts markdown = Inr res \<Longrightarrow>
   \<exists>grp. autoHeaderMatch (trim markdown) = Some grp"
  by (auto simp: signifierTry_def checkAutoHeader_def andThen_def split: sum.splits option.splits)

lemma signifierTry_cleaned:
  "signifierTry g defaults opts markdown = Inr (opts', cleaned) \<Longrightarrow>
   cleaned = join ''\<newline>'' (drop 1 (splitString markdown ''\<newline>''))"
  by (auto simp: signifierTry_def andThen_def split: sum.splits if_splits)

lemma first_line_split:
  "markdown = firstLine markdown
     @ (if CHR ''\<newline>'' \<in> set markdown then CHR ''\<newline>'' # afterFirstLine markdown else [])"
proof (cases "CHR ''\<newline>'' \<in> set markdown")
  case True
  then obtain a r where s: "markdown = a @ CHR ''\<newline>'' # r" and a: "CHR ''\<newline>'' \<notin> set a"
    by (auto dest: split_list_first)
  from a have nl: "\<forall>x \<in> set a. x \<noteq> CHR ''\<newline>''" by auto
  have "takeWhile (\<lambda>c. c \<noteq> CHR ''\<newline>'') markdown = a"
    unfolding s using nl by (simp add: takeWhile_tail)
  moreover have "dropWhile (\<lambda>c. c \<noteq> CHR ''\<newline>'') markdown = CHR ''\<newline>'' # r"
    unfolding s using nl by (simp add: dropWhile_append3)
  ultimately have "firstLine markdown = a" "afterFirstLine markdown = r"
    by (simp_all add: firstLine_def afterFirstLine_def)
  with True s show ?thesis by simp
next
  case False
  then have "firstLine markdown = markdown"
    by (auto simp: firstLine_def)
  with False show ?thesis by simp
qed

text \<open>
  What the first hook passes on, whenever it passes a text on: the input without its
  first line, that is the text after the first line feed, and the empty text when the
  input has no line feed. When no line feed comes before the signifier (none in the white
  space that the input starts with), the first line is the signifier's line: the parser
  accepts the first line alone, with the same signifier.
\<close>

lemma first_line_removed:
  assumes "snd (beforeEachSignifier g defaults opts markdown) = Some cleaned"
  shows "cleaned = afterFirstLine markdown
       \<and> CHR ''\<newline>'' \<notin> set (firstLine markdown)
       \<and> markdown = firstLine markdown
           @ (if CHR ''\<newline>'' \<in> set markdown then CHR ''\<newline>'' # cleaned else [])
       \<and> (CHR ''\<newline>'' \<notin> set (takeWhile isSpace markdown) \<longrightarrow>
            (\<exists>headingSignifier. checkAutoHeader g markdown = Inr headingSignifier
                \<and> checkAutoHeader g (firstLine markdown) = Inr headingSignifier))"
proof -
  from assms obtain opts' where ok: "signifierTry g defaults opts markdown = Inr (opts', cleaned)"
    by (auto simp: beforeEachSignifier_def split: sum.splits prod.splits)
  then have "cleaned = join ''\<newline>'' (drop 1 (splitString markdown ''\<newline>''))"
    by (rule signifierTry_cleaned)
  then have c: "cleaned = afterFirstLine markdown"
    unfolding cleaned_text afterFirstLine_def .
  have nl: "CHR ''\<newline>'' \<notin> set (firstLine markdown)"
    by (auto simp: firstLine_def dest: set_takeWhileD)
  have sp: "markdown = firstLine markdown
             @ (if CHR ''\<newline>'' \<in> set markdown then CHR ''\<newline>'' # cleaned else [])"
    unfolding c by (rule first_line_split)
  from signifierTry_accepts[OF ok] obtain grp where m: "autoHeaderMatch (trim markdown) = Some grp"
    by blast
  have line: "CHR ''\<newline>'' \<notin> set (takeWhile isSpace markdown) \<longrightarrow>
            (\<exists>headingSignifier. checkAutoHeader g markdown = Inr headingSignifier
                \<and> checkAutoHeader g (firstLine markdown) = Inr headingSignifier)"
  proof
    assume "CHR ''\<newline>'' \<notin> set (takeWhile isSpace markdown)"
    from first_line_has_signifier[OF m this] m
    show "\<exists>headingSignifier. checkAutoHeader g markdown = Inr headingSignifier
                \<and> checkAutoHeader g (firstLine markdown) = Inr headingSignifier"
      by (simp add: checkAutoHeader_def)
  qed
  from c nl sp line show ?thesis by (intro conjI)
qed

lemma leading_line_feed:
  assumes "CHR ''\<newline>'' \<in> set (takeWhile isSpace markdown)"
  shows "(\<forall>c \<in> set (firstLine markdown). isSpace c)
       \<and> dropWhile isSpace (afterFirstLine markdown) = dropWhile isSpace markdown"
proof -
  let ?ws = "takeWhile isSpace markdown"
  let ?body = "dropWhile isSpace markdown"
  let ?notnl = "\<lambda>c. c \<noteq> CHR ''\<newline>''"
  from assms obtain a w where ws: "?ws = a @ CHR ''\<newline>'' # w" and a: "CHR ''\<newline>'' \<notin> set a"
    by (auto dest: split_list_first)
  have sp: "\<forall>c \<in> set ?ws. isSpace c"
    by (auto dest: set_takeWhileD)
  then have a_sp: "\<forall>c \<in> set a. isSpace c" and w_sp: "\<forall>c \<in> set w. isSpace c"
    unfolding ws by auto
  have "markdown = ?ws @ ?body" by simp
  then have md: "markdown = a @ CHR ''\<newline>'' # (w @ ?body)"
    unfolding ws by simp
  from a have anl: "\<forall>x \<in> set a. ?notnl x" by auto
  have "takeWhile ?notnl (a @ CHR ''\<newline>'' # (w @ ?body)) = a"
    using anl by (simp add: takeWhile_tail)
  then have fl: "firstLine markdown = a"
    unfolding firstLine_def using md by simp
  have "dropWhile ?notnl (a @ CHR ''\<newline>'' # (w @ ?body)) = CHR ''\<newline>'' # (w @ ?body)"
    using anl by (simp add: dropWhile_append3)
  then have al: "afterFirstLine markdown = w @ ?body"
    unfolding afterFirstLine_def using md by simp
  have "dropWhile isSpace (w @ ?body) = dropWhile isSpace ?body"
    by (rule dropWhile_append2) (use w_sp in auto)
  also have "\<dots> = ?body"
    by (rule dropWhile_idem)
  finally show ?thesis
    using fl a_sp al by simp
qed

lemma carriage_return_document:
  "snd (beforeEachSignifier None defaultsW optsDash (''@autoHeader:1-1'' @ [CHR 0x0D] @ ''# a''))
     = Some []"
  by code_simp

text \<open>
  Claim C9, evaluated on the code. Where the input has a line feed before the signifier
  (in the white space that the input starts with) and the first hook passes a text on,
  the line that the hook removes is white space only, and the text passed on still has
  the signifier's line: it is the same text after trimming, and the parser accepts it
  again, with the same signifier. (By \<open>first_line_removed\<close>, the hook removes the
  signifier's line when no line feed comes before it; by \<open>carriage_return_document\<close>,
  a text whose lines end in carriage returns only is passed on as the empty text.)
\<close>

theorem signifier_line_kept:
  assumes "snd (beforeEachSignifier g defaults opts markdown) = Some cleaned"
      and "CHR ''\<newline>'' \<in> set (takeWhile isSpace markdown)"
  shows "cleaned = afterFirstLine markdown
       \<and> (\<forall>c \<in> set (firstLine markdown). isSpace c)
       \<and> trim cleaned = trim markdown
       \<and> checkAutoHeader g cleaned = checkAutoHeader g markdown
       \<and> (\<exists>headingSignifier. checkAutoHeader g cleaned = Inr headingSignifier)"
proof -
  from assms(1) obtain opts' where ok: "signifierTry g defaults opts markdown = Inr (opts', cleaned)"
    by (auto simp: beforeEachSignifier_def split: sum.splits prod.splits)
  from first_line_removed[OF assms(1)] have c: "cleaned = afterFirstLine markdown"
    by simp
  from leading_line_feed[OF assms(2)]
  have ws: "\<forall>c \<in> set (firstLine markdown). isSpace c"
    and dw: "dropWhile isSpace (afterFirstLine markdown) = dropWhile isSpace markdown"
    by simp_all
  have t: "trim cleaned = trim markdown"
    unfolding c trim_rtrim dw ..
  then have same: "checkAutoHeader g cleaned = checkAutoHeader g markdown"
    by (simp add: checkAutoHeader_def)
  from signifierTry_accepts[OF ok] obtain grp where "autoHeaderMatch (trim markdown) = Some grp"
    by blast
  then have "checkAutoHeader g cleaned = Inr grp"
    unfolding same by (simp add: checkAutoHeader_def)
  with c ws t same show ?thesis by blast
qed

theorem signifier_line_kept_witness:
  "snd (beforeEachSignifier None defaultsW optsDash ''\<newline>@autoHeader:1-1\<newline># a'')
     = Some ''@autoHeader:1-1\<newline># a''
   \<and> ''@autoHeader:1-1\<newline># a'' = afterFirstLine ''\<newline>@autoHeader:1-1\<newline># a''
   \<and> firstLine ''\<newline>@autoHeader:1-1\<newline># a'' = []
   \<and> checkAutoHeader None ''@autoHeader:1-1\<newline># a'' = Inr ''1-1''
   \<and> checkAutoHeader None ''\<newline>@autoHeader:1-1\<newline># a'' = Inr ''1-1''"
proof -
  have p: "snd (beforeEachSignifier None defaultsW optsDash ''\<newline>@autoHeader:1-1\<newline># a'')
          = Some ''@autoHeader:1-1\<newline># a''"
    by code_simp
  have n: "CHR ''\<newline>'' \<in> set (takeWhile isSpace ''\<newline>@autoHeader:1-1\<newline># a'')"
    by (simp add: isSpace_def)
  have f: "firstLine ''\<newline>@autoHeader:1-1\<newline># a'' = []"
    by (simp add: firstLine_def)
  have k: "checkAutoHeader None ''\<newline>@autoHeader:1-1\<newline># a'' = Inr ''1-1''"
    by code_simp
  from signifier_line_kept[OF p n] p f k show ?thesis by simp
qed

subsection \<open>The separator\<close>

lemma normalised_separator_in_use:
  "setDefaultOptions nativeText (userW ''dot'')
     = Inr \<lparr>default_separator = SepString ''.'', default_levels = LevelsNumber 6,
            default_sidebar = True, default_debug = True\<rparr>
   \<and> (case initialOptions None
             \<lparr>default_separator = SepString ''.'', default_levels = LevelsNumber 6,
              default_sidebar = True, default_debug = True\<rparr> of
         Inl e \<Rightarrow> False
       | Inr opts \<Rightarrow>
           (case beforeEachSignifier None
                   \<lparr>default_separator = SepString ''.'', default_levels = LevelsNumber 6,
                    default_sidebar = True, default_debug = True\<rparr>
                   opts ''@autoHeader:2.1\<newline># a\<newline>## b'' of
              (opts', cleaned) \<Rightarrow>
                beforeEachRender opts' cleaned = Inr (Some ''# 2. a\<newline>## 2.1. b'')))"
  by code_simp

lemma inherited_separator_in_use:
  "setDefaultOptions nativeText (userW ''constructor'')
     = Inr \<lparr>default_separator = SepInherited ''constructor'' ''function Object() { [native code] }'',
            default_levels = LevelsNumber 6, default_sidebar = True, default_debug = True\<rparr>
   \<and> (case initialOptions None
             \<lparr>default_separator = SepInherited ''constructor'' ''function Object() { [native code] }'',
              default_levels = LevelsNumber 6, default_sidebar = True, default_debug = True\<rparr> of
         Inl e \<Rightarrow> False
       | Inr opts \<Rightarrow>
           (case beforeEachSignifier None
                   \<lparr>default_separator = SepInherited ''constructor'' ''function Object() { [native code] }'',
                    default_levels = LevelsNumber 6, default_sidebar = True, default_debug = True\<rparr>
                   opts ''@autoHeader:2\<newline># a'' of
              (opts', cleaned) \<Rightarrow>
                beforeEachRender opts' cleaned
                  = Inr (Some ''# 2function Object() { [native code] } a'')))"
  by code_simp

lemma hook_keeps_separator:
  "separator (fst (beforeEachSignifier g defaults opts markdown)) = separator opts"
  by (auto simp: beforeEachSignifier_def signifierTry_def andThen_def split: sum.splits if_splits)

text \<open>
  Claim C10, evaluated on the code. \<open>setDefaultOptions\<close> maps the separator values
  \<open>decimal\<close> and \<open>dot\<close> to \<open>.\<close>, \<open>dash\<close> and \<open>hyphen\<close> to \<open>-\<close>, \<open>bracket\<close> and
  \<open>parenthesis\<close> to \<open>)\<close>, and leaves every other string unchanged that is not the name
  of a property of \<open>Object.prototype\<close> (every string of one character, for one). A
  string that is such a name (\<open>constructor\<close>, \<open>toString\<close>, ...) is none of the six
  names and is not left unchanged: the separator becomes the inherited member. The value
  computed is the separator of the \<open>options\<close> that \<open>autoHeaders\<close> sets up, and the
  first hook, which splits the signifier with it, leaves it in place for the renderer,
  which joins the labels with it.
\<close>

theorem separator_normalisation:
  assumes "setDefaultOptions memberText options = Inr defaults"
      and "user_separator options = Some s"
  shows "(s \<in> {''decimal'', ''dot''} \<longrightarrow> default_separator defaults = SepString ''.'')
       \<and> (s \<in> {''dash'', ''hyphen''} \<longrightarrow> default_separator defaults = SepString ''-'')
       \<and> (s \<in> {''bracket'', ''parenthesis''} \<longrightarrow> default_separator defaults = SepString '')'')
       \<and> (s \<notin> {''decimal'', ''dot'', ''dash'', ''hyphen'', ''bracket'', ''parenthesis''}
            \<and> s \<notin> set objectPrototype \<longrightarrow> default_separator defaults = SepString s)
       \<and> (length s = 1 \<longrightarrow> default_separator defaults = SepString s)
       \<and> (s \<in> set objectPrototype \<longrightarrow>
            s \<notin> {''decimal'', ''dot'', ''dash'', ''hyphen'', ''bracket'', ''parenthesis''}
            \<and> default_separator defaults = SepInherited s (memberText s))
       \<and> (\<forall>opts. initialOptions g defaults = Inr opts \<longrightarrow>
            separator opts = default_separator defaults
            \<and> separator (fst (beforeEachSignifier g defaults opts markdown))
                = default_separator defaults)"
proof -
  from assms(1) have d: "default_separator defaults =
            (case user_separator options of
               None \<Rightarrow> SepUndefined
             | Some s \<Rightarrow>
                 (case map_of separatorMap s of
                    Some v \<Rightarrow> SepString v
                  | None \<Rightarrow> if s \<in> set objectPrototype then SepInherited s (memberText s)
                            else SepString s))"
    by (auto simp: setDefaultOptions_def andThen_def showErrorMessage_def split: if_splits)
  have single: "map_of separatorMap s = None \<and> s \<notin> set objectPrototype" if "length s = 1"
  proof -
    from that obtain c where "s = [c]" by (cases s) auto
    then show ?thesis by (simp add: separatorMap_def objectPrototype_def)
  qed
  have named: "(s \<in> {''decimal'', ''dot''} \<longrightarrow> default_separator defaults = SepString ''.'')
       \<and> (s \<in> {''dash'', ''hyphen''} \<longrightarrow> default_separator defaults = SepString ''-'')
       \<and> (s \<in> {''bracket'', ''parenthesis''} \<longrightarrow> default_separator defaults = SepString '')'')
       \<and> (s \<notin> {''decimal'', ''dot'', ''dash'', ''hyphen'', ''bracket'', ''parenthesis''}
            \<and> s \<notin> set objectPrototype \<longrightarrow> default_separator defaults = SepString s)
       \<and> (length s = 1 \<longrightarrow> default_separator defaults = SepString s)"
    unfolding d assms(2) using single by (auto simp: separatorMap_def)
  have proto: "s \<in> set objectPrototype \<longrightarrow>
            s \<notin> {''decimal'', ''dot'', ''dash'', ''hyphen'', ''bracket'', ''parenthesis''}
            \<and> default_separator defaults = SepInherited s (memberText s)"
    unfolding d assms(2) by (auto simp: separatorMap_def objectPrototype_def)
  have used: "\<forall>opts. initialOptions g defaults = Inr opts \<longrightarrow>
            separator opts = default_separator defaults
            \<and> separator (fst (beforeEachSignifier g defaults opts markdown))
                = default_separator defaults"
    unfolding hook_keeps_separator
    by (auto simp: initialOptions_def andThen_def split: sum.splits)
  from named proto used show ?thesis by (elim conjE, intro conjI) assumption+
qed

theorem separator_normalisation_witness:
  "default_separator (projr (setDefaultOptions nativeText (userW ''dot''))) = SepString ''.''
   \<and> default_separator (projr (setDefaultOptions nativeText (userW ''hyphen''))) = SepString ''-''
   \<and> default_separator (projr (setDefaultOptions nativeText (userW ''bracket''))) = SepString '')''
   \<and> default_separator (projr (setDefaultOptions nativeText (userW ''~''))) = SepString ''~''
   \<and> default_separator (projr (setDefaultOptions nativeText (userW ''constructor'')))
       = SepInherited ''constructor'' ''function Object() { [native code] }''
   \<and> separator (projr (initialOptions None (projr (setDefaultOptions nativeText (userW ''dot'')))))
       = SepString ''.''
   \<and> separator (fst (beforeEachSignifier None (projr (setDefaultOptions nativeText (userW ''dot'')))
          (projr (initialOptions None (projr (setDefaultOptions nativeText (userW ''dot'')))))
          ''@autoHeader:2.1\<newline># a''))
       = SepString ''.''"
proof -
  have io: "initialOptions None (projr (setDefaultOptions nativeText (userW s)))
              = Inr (projr (initialOptions None (projr (setDefaultOptions nativeText (userW s)))))"
    if "s \<noteq> []" for s
    using that
    by (simp add: initialOptions_def range6 andThen_def setDefaultOptions_def userW_def truthyLevels_def)
  have r: "setDefaultOptions nativeText (userW s) = Inr (projr (setDefaultOptions nativeText (userW s)))"
    if "s \<noteq> []" for s
    using that by (simp add: setDefaultOptions_def andThen_def userW_def)
  have u: "user_separator (userW s) = Some s" for s
    by (simp add: userW_def)
  have np: "''~'' \<notin> set objectPrototype" "''constructor'' \<in> set objectPrototype"
    by (simp_all add: objectPrototype_def)
  have nt: "nativeText ''constructor'' = ''function Object() { [native code] }''"
    by (simp add: nativeText_def)
  show ?thesis
    using separator_normalisation[OF r u, of "''dot''"] separator_normalisation[OF r u, of "''hyphen''"]
      separator_normalisation[OF r u, of "''bracket''"] separator_normalisation[OF r u, of "''~''"]
      separator_normalisation[OF r u, of "''constructor''"] np nt
      separator_normalisation[OF r u, of "''dot''" None "''@autoHeader:2.1\<newline># a''"]
      io[of "''dot''"]
    by simp
qed

subsection \<open>Failures with debug off\<close>

lemma reporting_off_goes_on:
  "snd (beforeEachSignifier (Some False) defaultsW optsDash ''@autoHeader:1-A\<newline># Title'')
     = Some ''# Title''"
  by code_simp

lemma setup_raises:
  "default_levels defaults = LevelsObject (Number 3) (Number 2) \<Longrightarrow>
   initialOptions None defaults = Inl ReferenceError"
  by (simp add: initialOptions_def validateAndGetHeadingRange_def andThen_def isNumber_def
        showErrorMessageGlobal_def)

text \<open>
  Claim C3, evaluated on the code. Whenever the \<open>try\<close> block of the first hook fails,
  the hook raises nothing, sets \<open>shouldContinue\<close> to false and calls \<open>next\<close> with
  \<open>undefined\<close>, not with the text it was given. A text without a signifier is such a
  failure, whatever \<open>debug\<close> is and whether there is a global \<open>options\<close> or not. The
  second hook, with \<open>debug\<close> false and given \<open>undefined\<close>, passes \<open>undefined\<close> on.
  (By \<open>reporting_off_goes_on\<close>, mixed tokens with reporting off are no failure: the
  hook passes the text without its first line. By \<open>setup_raises\<close>, an inverted level
  setting makes the set-up of \<open>autoHeaders\<close>, which is in no \<open>try\<close>, raise
  \<open>ReferenceError\<close> when there is no global \<open>options\<close>, whatever \<open>debug\<close> is.)
\<close>

theorem failure_passes_undefined:
  "(signifierTry g defaults opts markdown = Inl e \<longrightarrow>
      beforeEachSignifier g defaults opts markdown = (opts\<lparr>shouldContinue := False\<rparr>, None))
   \<and> (autoHeaderMatch (trim markdown) = None \<longrightarrow>
      beforeEachSignifier g defaults opts markdown = (opts\<lparr>shouldContinue := False\<rparr>, None))
   \<and> beforeEachRender (opts\<lparr>shouldContinue := False, debug := False\<rparr>) None = Inr None"
proof -
  have "\<exists>e. signifierTry g defaults opts markdown = Inl e" if "autoHeaderMatch (trim markdown) = None"
    using that
    by (cases g)
       (auto simp: signifierTry_def checkAutoHeader_def andThen_def showErrorMessageGlobal_def
          showErrorMessage_def)
  then show ?thesis
    by (auto simp: beforeEachSignifier_def beforeEachRender_def andThen_def showErrorMessage_def)
qed

theorem failure_passes_undefined_witness:
  "autoHeaderMatch (trim ''# Title\<newline>text'') = None
   \<and> beforeEachSignifier None defaultsW optsDash ''# Title\<newline>text''
       = (optsDash\<lparr>shouldContinue := False\<rparr>, None)
   \<and> beforeEachSignifier (Some False) defaultsW optsDash ''# Title\<newline>text''
       = (optsDash\<lparr>shouldContinue := False\<rparr>, None)
   \<and> beforeEachRender (optsDash\<lparr>shouldContinue := False, debug := False\<rparr>) None = Inr None"
proof -
  have m: "autoHeaderMatch (trim ''# Title\<newline>text'') = None"
    by code_simp
  show ?thesis
    using m failure_passes_undefined[of None defaultsW optsDash "''# Title\<newline>text''"]
      failure_passes_undefined[of "Some False" defaultsW optsDash "''# Title\<newline>text''"]
    by simp
qed

end
